theory Spec2Isabelle
  imports
    Complex_Main
    "HOL-Library.FSet"
    "HOL-Library.List_Lexorder"
    "HOL-Library.Log_Nat"
begin

section \<open>Python strings\<close>

text \<open>
  A Python \<open>str\<close> is a sequence of Unicode code points; \<open>len\<close> counts code points and
  comparison is lexicographic on them. A code point is modelled as a natural number and a
  string as a list of code points, ordered lexicographically.
\<close>

type_synonym cp = nat
type_synonym ustr = "cp list"

definition S :: "string \<Rightarrow> ustr" where
  \<comment> \<open>an ASCII literal of the source as a list of code points\<close>
  "S s = map of_char s"

text \<open>
  What the runtime does with code points outside ASCII comes from the Unicode character
  database of the interpreter, which is not part of the repository. It is a parameter of the
  model:
  \<^item> \<open>uni_isspace c\<close>: whether \<open>c\<close> is whitespace for \<open>str.strip\<close>, \<open>str.split\<close>
    and the pattern \<open>\s\<close>;
  \<^item> \<open>uni_lower c\<close>: the lowercase of \<open>c\<close>, one or more code points;
  \<^item> \<open>uni_cased c\<close> and \<open>uni_case_ignorable c\<close>: the two properties that the rule for
    the capital sigma reads in the code points around it;
  \<^item> \<open>uni_isalnum c\<close>: whether \<open>c\<close> is a word character for the pattern \<open>\b\<close>;
  \<^item> \<open>uni_icase p c\<close>: whether the text code point \<open>c\<close> matches the pattern literal
    \<open>p\<close> under \<open>re.IGNORECASE\<close>.

  The database is consulted for code points from 128 on only. A whitespace code point has
  no case in any version of the database (its general category is a separator or a control
  category): it is its own lowercase and is neither cased nor case-ignorable, and the model
  asks the database about case for the other code points only.
\<close>

record unicode_db =
  uni_isspace :: "cp \<Rightarrow> bool"
  uni_lower :: "cp \<Rightarrow> ustr"
  uni_cased :: "cp \<Rightarrow> bool"
  uni_case_ignorable :: "cp \<Rightarrow> bool"
  uni_isalnum :: "cp \<Rightarrow> bool"
  uni_icase :: "cp \<Rightarrow> cp \<Rightarrow> bool"

definition ascii_db :: unicode_db where
  \<comment> \<open>a database that knows nothing beyond ASCII; every ASCII text behaves the same
      under any database\<close>
  "ascii_db = \<lparr> uni_isspace = (\<lambda>c. False), uni_lower = (\<lambda>c. [c]), uni_cased = (\<lambda>c. False),
                 uni_case_ignorable = (\<lambda>c. False), uni_isalnum = (\<lambda>c. False),
                 uni_icase = (\<lambda>p c. False) \<rparr>"

definition is_upper :: "cp \<Rightarrow> bool" where
  "is_upper c = (65 \<le> c \<and> c \<le> 90)"

definition is_lower :: "cp \<Rightarrow> bool" where
  "is_lower c = (97 \<le> c \<and> c \<le> 122)"

definition is_digit :: "cp \<Rightarrow> bool" where
  "is_digit c = (48 \<le> c \<and> c \<le> 57)"

definition is_letter :: "cp \<Rightarrow> bool" where
  \<comment> \<open>the class \<open>[A-Za-z]\<close>\<close>
  "is_letter c = (is_upper c \<or> is_lower c)"

definition ascii_lower :: "cp \<Rightarrow> cp" where
  "ascii_lower c = (if is_upper c then c + 32 else c)"

definition isspace :: "unicode_db \<Rightarrow> cp \<Rightarrow> bool" where
  \<comment> \<open>ASCII whitespace: tab, LF, VT, FF, CR, FS, GS, RS, US and space\<close>
  "isspace U c = (if c < 128 then (9 \<le> c \<and> c \<le> 13) \<or> (28 \<le> c \<and> c \<le> 32)
                  else uni_isspace U c)"

definition cased :: "unicode_db \<Rightarrow> cp \<Rightarrow> bool" where
  \<comment> \<open>the property Cased; in ASCII, the letters\<close>
  "cased U c = (if c < 128 then is_letter c else \<not> uni_isspace U c \<and> uni_cased U c)"

definition case_ignorable :: "unicode_db \<Rightarrow> cp \<Rightarrow> bool" where
  \<comment> \<open>the property Case_Ignorable; in ASCII, the apostrophe, the full stop, the colon,
      the circumflex and the grave accent\<close>
  "case_ignorable U c =
     (if c < 128 then c = 39 \<or> c = 46 \<or> c = 58 \<or> c = 94 \<or> c = 96
      else \<not> uni_isspace U c \<and> uni_case_ignorable U c)"

definition final_sigma :: "unicode_db \<Rightarrow> ustr \<Rightarrow> ustr \<Rightarrow> bool" where
  \<comment> \<open>whether a capital sigma is in final position: \<open>rbefore\<close> is the text before it, read
      backwards, \<open>after\<close> the text after it. Going back over case-ignorable code points there
      is a cased one, and going forward over case-ignorable code points there is none.\<close>
  "final_sigma U rbefore after =
     ((case dropWhile (case_ignorable U) rbefore of [] \<Rightarrow> False | d # _ \<Rightarrow> cased U d)
      \<and> (case dropWhile (case_ignorable U) after of [] \<Rightarrow> True | d # _ \<Rightarrow> \<not> cased U d))"

definition lower_cp :: "unicode_db \<Rightarrow> ustr \<Rightarrow> cp \<Rightarrow> ustr \<Rightarrow> ustr" where
  \<comment> \<open>the lowercase of the code point \<open>c\<close> between \<open>rbefore\<close> (read backwards) and
      \<open>after\<close>; the context counts for the capital sigma (U+03A3) only, which becomes the
      final small sigma (U+03C2) or the small sigma (U+03C3)\<close>
  "lower_cp U rbefore c after =
     (if c < 128 then [ascii_lower c]
      else if uni_isspace U c then [c]
      else if c = 931 then [if final_sigma U rbefore after then 962 else 963]
      else uni_lower U c)"

fun lower_from :: "unicode_db \<Rightarrow> ustr \<Rightarrow> ustr \<Rightarrow> ustr" where
  \<comment> \<open>the rest of a text lowercased, \<open>rbefore\<close> being the text before it, read backwards\<close>
  "lower_from U rbefore [] = []"
| "lower_from U rbefore (c # after) =
     lower_cp U rbefore c after @ lower_from U (c # rbefore) after"

definition lower :: "unicode_db \<Rightarrow> ustr \<Rightarrow> ustr" where
  \<comment> \<open>\<open>str.lower()\<close>\<close>
  "lower U s = lower_from U [] s"

definition lstrip :: "unicode_db \<Rightarrow> ustr \<Rightarrow> ustr" where
  "lstrip U s = dropWhile (isspace U) s"

definition rstrip :: "unicode_db \<Rightarrow> ustr \<Rightarrow> ustr" where
  "rstrip U s = rev (dropWhile (isspace U) (rev s))"

definition strip :: "unicode_db \<Rightarrow> ustr \<Rightarrow> ustr" where
  "strip U s = rstrip U (lstrip U s)"

fun split_aux :: "unicode_db \<Rightarrow> ustr \<Rightarrow> ustr \<Rightarrow> ustr list" where
  "split_aux U cur [] = (if cur = [] then [] else [cur])"
| "split_aux U cur (c # cs) =
     (if isspace U c then (if cur = [] then split_aux U [] cs else cur # split_aux U [] cs)
      else split_aux U (cur @ [c]) cs)"

definition split :: "unicode_db \<Rightarrow> ustr \<Rightarrow> ustr list" where
  \<comment> \<open>\<open>str.split()\<close> with no argument: the maximal runs of non-whitespace\<close>
  "split U s = split_aux U [] s"

definition is_linebreak :: "cp \<Rightarrow> bool" where
  \<comment> \<open>the line boundaries of \<open>str.splitlines\<close>: LF, VT, FF, CR, FS, GS, RS, NEL, LS, PS\<close>
  "is_linebreak c = ((10 \<le> c \<and> c \<le> 13) \<or> (28 \<le> c \<and> c \<le> 30) \<or> c = 133 \<or> c = 8232 \<or> c = 8233)"

fun splitlines_aux :: "ustr \<Rightarrow> ustr \<Rightarrow> ustr list" where
  "splitlines_aux cur [] = (if cur = [] then [] else [cur])"
| "splitlines_aux cur [c] = (if is_linebreak c then [cur] else [cur @ [c]])"
| "splitlines_aux cur (c # d # cs) =
     (if c = 13 \<and> d = 10 then cur # splitlines_aux [] cs
      else if is_linebreak c then cur # splitlines_aux [] (d # cs)
      else splitlines_aux (cur @ [c]) (d # cs))"

definition splitlines :: "ustr \<Rightarrow> ustr list" where
  \<comment> \<open>\<open>str.splitlines()\<close>: CR LF is one boundary, no empty line after a final boundary\<close>
  "splitlines s = splitlines_aux [] s"

fun join :: "ustr \<Rightarrow> ustr list \<Rightarrow> ustr" where
  \<comment> \<open>\<open>sep.join(xs)\<close>\<close>
  "join sep [] = []"
| "join sep [x] = x"
| "join sep (x # y # ys) = x @ sep @ join sep (y # ys)"

fun is_prefix :: "'a list \<Rightarrow> 'a list \<Rightarrow> bool" where
  "is_prefix [] ys = True"
| "is_prefix (x # xs) [] = False"
| "is_prefix (x # xs) (y # ys) = (x = y \<and> is_prefix xs ys)"

fun contains :: "'a list \<Rightarrow> 'a list \<Rightarrow> bool" where
  \<comment> \<open>\<open>contains s sub\<close> is Python's \<open>sub in s\<close> on strings\<close>
  "contains [] sub = (sub = [])"
| "contains (c # cs) sub = (is_prefix sub (c # cs) \<or> contains cs sub)"

section \<open>Tokenizer\<close>

definition is_token_char :: "cp \<Rightarrow> bool" where
  \<comment> \<open>the class \<open>[A-Za-z\-\+\#/0-9]\<close>\<close>
  "is_token_char c = (is_letter c \<or> c = 45 \<or> c = 43 \<or> c = 35 \<or> c = 47 \<or> is_digit c)"

fun findall_tokens :: "ustr \<Rightarrow> ustr \<Rightarrow> ustr list" where
  \<comment> \<open>\<open>re.findall\<close> of \<open>[A-Za-z][A-Za-z\-\+\#/0-9]*\<close>: leftmost, greedy, not overlapping;
      \<open>cur\<close> is the match in progress\<close>
  "findall_tokens cur [] = (if cur = [] then [] else [cur])"
| "findall_tokens cur (c # cs) =
     (if cur = [] then (if is_letter c then findall_tokens [c] cs else findall_tokens [] cs)
      else if is_token_char c then findall_tokens (cur @ [c]) cs
      else cur # findall_tokens [] cs)"

definition simple_tokenize :: "unicode_db \<Rightarrow> ustr \<Rightarrow> ustr list" where
  "simple_tokenize U text = findall_tokens [] (lower U text)"

section \<open>Errors and dictionaries\<close>

text \<open>
  The exceptions an operation of the analysis code can raise are values: a function that
  contains such an operation returns \<open>py_error + 'a\<close>, with \<open>Inl\<close> for the exception.
  A \<open>dict\<close> is an association list in insertion order with distinct keys.
\<close>

datatype py_error = KeyError | ZeroDivisionError

definition int_floordiv :: "int \<Rightarrow> int \<Rightarrow> py_error + int" where
  \<comment> \<open>\<open>a // b\<close> on integers: the floor of the quotient\<close>
  "int_floordiv a b = (if b = 0 then Inl ZeroDivisionError else Inr (a div b))"

fun getitem :: "('k \<times> 'v) list \<Rightarrow> 'k \<Rightarrow> py_error + 'v" where
  \<comment> \<open>\<open>d[k]\<close>, read\<close>
  "getitem [] k = Inl KeyError"
| "getitem ((k', v) # kvs) k = (if k' = k then Inr v else getitem kvs k)"

fun setitem :: "('k \<times> 'v) list \<Rightarrow> 'k \<Rightarrow> 'v \<Rightarrow> ('k \<times> 'v) list" where
  \<comment> \<open>\<open>d[k] = v\<close>: a new key goes to the end\<close>
  "setitem [] k v = [(k, v)]"
| "setitem ((k', v') # kvs) k v = (if k' = k then (k', v) # kvs else (k', v') # setitem kvs k v)"

fun get_default :: "('k \<times> 'v) list \<Rightarrow> 'k \<Rightarrow> 'v \<Rightarrow> 'v" where
  \<comment> \<open>\<open>d.get(k, dflt)\<close>, and the read of a \<open>defaultdict\<close>\<close>
  "get_default [] k dflt = dflt"
| "get_default ((k', v) # kvs) k dflt = (if k' = k then v else get_default kvs k dflt)"

fun Counter :: "'a list \<Rightarrow> ('a \<times> int) list \<Rightarrow> ('a \<times> int) list" where
  \<comment> \<open>\<open>collections.Counter(xs)\<close>, counting into \<open>acc\<close>: keys in order of first occurrence\<close>
  "Counter [] acc = acc"
| "Counter (x # xs) acc = Counter xs (setitem acc x (get_default acc x 0 + 1))"

definition most_common :: "nat \<Rightarrow> ('a \<times> int) list \<Rightarrow> ('a \<times> int) list" where
  \<comment> \<open>\<open>Counter.most_common(n)\<close>: by descending count, equal counts in order of first
      occurrence (the sort is stable)\<close>
  "most_common n c = take n (sort_key (\<lambda>kv. - snd kv) c)"

section \<open>Section Detector\<close>

definition CANONICAL_SECTIONS :: "ustr list" where
  "CANONICAL_SECTIONS = [S ''summary'', S ''experience'', S ''education'', S ''skills'',
     S ''projects'', S ''certifications'', S ''publications'']"

definition SECTION_ALIASES :: "(ustr \<times> ustr) list" where
  "SECTION_ALIASES = [
     (S ''professional summary'', S ''summary''),
     (S ''profile'', S ''summary''),
     (S ''objective'', S ''summary''),
     (S ''work experience'', S ''experience''),
     (S ''employment'', S ''experience''),
     (S ''work history'', S ''experience''),
     (S ''professional experience'', S ''experience''),
     (S ''education'', S ''education''),
     (S ''academics'', S ''education''),
     (S ''skills'', S ''skills''),
     (S ''technical skills'', S ''skills''),
     (S ''projects'', S ''projects''),
     (S ''personal projects'', S ''projects''),
     (S ''certifications'', S ''certifications''),
     (S ''licenses'', S ''certifications''),
     (S ''publications'', S ''publications'')]"

definition word_char :: "unicode_db \<Rightarrow> cp \<Rightarrow> bool" where
  \<comment> \<open>\<open>\w\<close> of a \<open>str\<close> pattern\<close>
  "word_char U c = (if c < 128 then is_letter c \<or> is_digit c \<or> c = 95 else uni_isalnum U c)"

definition icase_match :: "unicode_db \<Rightarrow> cp \<Rightarrow> cp \<Rightarrow> bool" where
  \<comment> \<open>a pattern literal \<open>p\<close> against the text code point \<open>c\<close> under \<open>re.IGNORECASE\<close>\<close>
  "icase_match U p c = (if p < 128 \<and> c < 128 then ascii_lower c = ascii_lower p else uni_icase U p c)"

fun word_boundary :: "unicode_db \<Rightarrow> bool \<Rightarrow> ustr \<Rightarrow> bool" where
  \<comment> \<open>\<open>\b\<close> in front of the rest \<open>s\<close> of the text, \<open>prev\<close> telling whether the code point
      before it is a word character: a word character on exactly one side; beyond either
      end of the text there is none\<close>
  "word_boundary U prev [] = prev"
| "word_boundary U prev (c # cs) = (prev \<noteq> word_char U c)"

fun match_literal :: "unicode_db \<Rightarrow> ustr \<Rightarrow> bool \<Rightarrow> ustr \<Rightarrow> (bool \<times> ustr) option" where
  \<comment> \<open>the literal text of the pattern at the front of \<open>s\<close>; gives the rest of \<open>s\<close> and
      whether the last code point before it is a word character\<close>
  "match_literal U [] prev s = Some (prev, s)"
| "match_literal U (p # ps) prev [] = None"
| "match_literal U (p # ps) prev (c # cs) =
     (if icase_match U p c then match_literal U ps (word_char U c) cs else None)"

definition match_alias :: "unicode_db \<Rightarrow> ustr \<Rightarrow> bool \<Rightarrow> ustr \<Rightarrow> bool" where
  \<comment> \<open>\<open>\b\<close>, the alias, \<open>\b\<close> at the front of \<open>s\<close>\<close>
  "match_alias U alias prev s =
     (if word_boundary U prev s
      then (case match_literal U alias prev s of
              None \<Rightarrow> False
            | Some (prev', rest) \<Rightarrow> word_boundary U prev' rest)
      else False)"

fun search_alias :: "unicode_db \<Rightarrow> ustr \<Rightarrow> bool \<Rightarrow> ustr \<Rightarrow> bool" where
  \<comment> \<open>a match at some position of \<open>s\<close>, tried from left to right\<close>
  "search_alias U alias prev [] = match_alias U alias prev []"
| "search_alias U alias prev (c # cs) =
     (if match_alias U alias prev (c # cs) then True
      else search_alias U alias (word_char U c) cs)"

definition alias_search :: "unicode_db \<Rightarrow> ustr \<Rightarrow> ustr \<Rightarrow> bool" where
  \<comment> \<open>\<open>re.compile(rf"\b{re.escape(alias)}\b", re.IGNORECASE).search(s)\<close> finds a match\<close>
  "alias_search U alias s = search_alias U alias False s"

fun first_alias :: "unicode_db \<Rightarrow> ustr \<Rightarrow> ustr list \<Rightarrow> py_error + ustr option" where
  \<comment> \<open>the loop over \<open>alias_patterns\<close>: the section of the first alias found, in the order of
      the table\<close>
  "first_alias U s [] = Inr None"
| "first_alias U s (alias # rest) =
     (if alias_search U alias s
      then (case getitem SECTION_ALIASES alias of Inl e \<Rightarrow> Inl e | Inr sec \<Rightarrow> Inr (Some sec))
      else first_alias U s rest)"

definition line_weight :: "ustr \<Rightarrow> py_error + int" where
  \<comment> \<open>\<open>max(1, len(line) // 60)\<close>\<close>
  "line_weight line =
     (case int_floordiv (int (length line)) 60 of Inl e \<Rightarrow> Inl e | Inr q \<Rightarrow> Inr (max 1 q))"

definition switch_section :: "ustr \<Rightarrow> ustr option \<Rightarrow> ustr \<Rightarrow> ustr" where
  \<comment> \<open>\<open>if matched and is_heading: current = matched\<close>, with \<open>is_heading = len(line) <= 120\<close>\<close>
  "switch_section current matched line =
     (case matched of
        None \<Rightarrow> current
      | Some sec \<Rightarrow> if sec \<noteq> [] \<and> length line \<le> 120 then sec else current)"

fun scan_lines :: "unicode_db \<Rightarrow> ustr \<Rightarrow> (ustr \<times> int) list \<Rightarrow> ustr list \<Rightarrow> py_error + (ustr \<times> int) list" where
  \<comment> \<open>the loop over the lines, with the variables \<open>current\<close> and \<open>section_lengths\<close>
      (a \<open>defaultdict(int)\<close>, which reads 0 for a key it does not have)\<close>
  "scan_lines U current section_lengths [] = Inr section_lengths"
| "scan_lines U current section_lengths (line # rest) =
     (case first_alias U (lower U line) (map fst SECTION_ALIASES) of
        Inl e \<Rightarrow> Inl e
      | Inr matched \<Rightarrow>
          (case line_weight line of
             Inl e \<Rightarrow> Inl e
           | Inr w \<Rightarrow>
               scan_lines U (switch_section current matched line)
                 (setitem section_lengths (switch_section current matched line)
                    (get_default section_lengths (switch_section current matched line) 0 + w))
                 rest))"

definition nonblank_lines :: "unicode_db \<Rightarrow> ustr \<Rightarrow> ustr list" where
  \<comment> \<open>\<open>[l.rstrip() for l in text.splitlines() if l.strip()]\<close>\<close>
  "nonblank_lines U text = map (rstrip U) (filter (\<lambda>l. strip U l \<noteq> []) (splitlines text))"

definition line_weights :: "ustr list \<Rightarrow> int" where
  \<comment> \<open>the weights of the lines, added up\<close>
  "line_weights ls = sum_list (map (\<lambda>line. max 1 (int (length line) div 60)) ls)"

definition heading_pass :: "unicode_db \<Rightarrow> ustr \<Rightarrow> py_error + (ustr \<times> int) list" where
  \<comment> \<open>pass 1, up to \<open>non_other\<close>\<close>
  "heading_pass U text =
     (case scan_lines U (S ''summary'') [] (nonblank_lines U text) of
        Inl e \<Rightarrow> Inl e
      | Inr section_lengths \<Rightarrow>
          Inr (filter (\<lambda>kv. fst kv \<in> set CANONICAL_SECTIONS) section_lengths))"

definition heuristics :: "(ustr \<times> ustr list) list" where
  "heuristics = [
     (S ''summary'', [S ''summary'', S ''objective'', S ''profile'']),
     (S ''experience'', [S ''experience'', S ''managed'', S ''lead'', S ''developed'',
                         S ''responsible'', S ''achieved'']),
     (S ''education'', [S ''bsc'', S ''msc'', S ''university'', S ''degree'', S ''gpa'',
                        S ''bachelor'', S ''master'']),
     (S ''skills'', [S ''skills'', S ''python'', S ''java'', S ''sql'', S ''excel'',
                     S ''communication'']),
     (S ''projects'', [S ''project'', S ''built'', S ''implemented'', S ''designed'']),
     (S ''certifications'', [S ''certified'', S ''certificate'', S ''certification'']),
     (S ''publications'', [S ''publication'', S ''journal'', S ''conference''])]"

fun fill_fallback :: "(ustr \<times> int) list \<Rightarrow> (ustr \<times> int) list \<Rightarrow> (ustr \<times> ustr list) list
                       \<Rightarrow> (ustr \<times> int) list" where
  \<comment> \<open>\<open>for sec, kws in heuristics.items(): fallback[sec] = sum(counts.get(k, 0) for k in kws)\<close>\<close>
  "fill_fallback counts fallback [] = fallback"
| "fill_fallback counts fallback ((sec, kws) # rest) =
     fill_fallback counts
       (setitem fallback sec (sum_list (map (\<lambda>k. get_default counts k 0) kws))) rest"

fun normalize_fallback :: "(ustr \<times> int) list \<Rightarrow> ustr list \<Rightarrow> py_error + (ustr \<times> int) list" where
  \<comment> \<open>\<open>for k in list(fallback.keys()): if fallback[k] > 0: fallback[k] = max(1, fallback[k] // 2)\<close>\<close>
  "normalize_fallback fallback [] = Inr fallback"
| "normalize_fallback fallback (k # ks) =
     (case getitem fallback k of
        Inl e \<Rightarrow> Inl e
      | Inr v \<Rightarrow>
          if v > 0
          then (case getitem fallback k of
                  Inl e \<Rightarrow> Inl e
                | Inr v' \<Rightarrow>
                    (case int_floordiv v' 2 of
                       Inl e \<Rightarrow> Inl e
                     | Inr h \<Rightarrow> normalize_fallback (setitem fallback k (max 1 h)) ks))
          else normalize_fallback fallback ks)"

definition keyword_pass :: "unicode_db \<Rightarrow> ustr \<Rightarrow> py_error + (ustr \<times> int) list" where
  \<comment> \<open>pass 2, the body of the \<open>if\<close>\<close>
  "keyword_pass U text =
     (let counts = Counter (simple_tokenize U text) [];
          fallback = fill_fallback counts [] heuristics
      in case normalize_fallback fallback (map fst fallback) of
           Inl e \<Rightarrow> Inl e
         | Inr fallback' \<Rightarrow> Inr (filter (\<lambda>kv. snd kv > 0) fallback'))"

definition detect_sections :: "unicode_db \<Rightarrow> ustr \<Rightarrow> py_error + (ustr \<times> int) list" where
  "detect_sections U text =
     (case heading_pass U text of
        Inl e \<Rightarrow> Inl e
      | Inr non_other \<Rightarrow>
          if non_other = [] \<or> sum_list (map snd non_other) < 3 then keyword_pass U text
          else Inr non_other)"

section \<open>Floating-point numbers\<close>

text \<open>
  A Python \<open>float\<close> is an IEEE 754 double. A finite double is modelled by the rational
  number it denotes, and every arithmetic operation gives the exact result rounded to 53
  significant bits, ties to even. The exponent range of the model is unbounded: the numbers
  the analysis code computes are quotients of lengths and small constants, and \<open>len\<close> of a
  Python object is below \<open>2^63\<close>, far inside the range of a double in both directions.
\<close>

type_synonym pyfloat = rat

definition pow2 :: "int \<Rightarrow> rat" where
  "pow2 e = (if 0 \<le> e then 2 ^ nat e else 1 / 2 ^ nat (- e))"

definition round_half_even :: "rat \<Rightarrow> int" where
  "round_half_even x =
     (if x - of_int \<lfloor>x\<rfloor> < 1 / 2 then \<lfloor>x\<rfloor>
      else if 1 / 2 < x - of_int \<lfloor>x\<rfloor> then \<lfloor>x\<rfloor> + 1
      else if even \<lfloor>x\<rfloor> then \<lfloor>x\<rfloor> else \<lfloor>x\<rfloor> + 1)"

definition binade :: "rat \<Rightarrow> int" where
  \<comment> \<open>for \<open>0 < x\<close>, the exponent \<open>k\<close> with \<open>2^k \<le> x < 2^(k+1)\<close>\<close>
  "binade x =
     (if pow2 (bitlen (fst (quotient_of x)) - bitlen (snd (quotient_of x))) \<le> x
      then bitlen (fst (quotient_of x)) - bitlen (snd (quotient_of x))
      else bitlen (fst (quotient_of x)) - bitlen (snd (quotient_of x)) - 1)"

definition fl :: "rat \<Rightarrow> pyfloat" where
  \<comment> \<open>the double nearest to \<open>x\<close>\<close>
  "fl x =
     (if x = 0 then 0
      else sgn x * of_int (round_half_even (\<bar>x\<bar> / pow2 (binade \<bar>x\<bar> - 52))) * pow2 (binade \<bar>x\<bar> - 52))"

definition float_of_int :: "int \<Rightarrow> pyfloat" where
  \<comment> \<open>the conversion of an \<open>int\<close> operand of a \<open>float\<close> operation\<close>
  "float_of_int n = fl (of_int n)"

definition int_truediv :: "int \<Rightarrow> int \<Rightarrow> py_error + pyfloat" where
  \<comment> \<open>\<open>a / b\<close> on integers: the exact quotient, rounded once\<close>
  "int_truediv a b = (if b = 0 then Inl ZeroDivisionError else Inr (fl (of_int a / of_int b)))"

definition float_truediv :: "pyfloat \<Rightarrow> pyfloat \<Rightarrow> py_error + pyfloat" where
  "float_truediv x y = (if y = 0 then Inl ZeroDivisionError else Inr (fl (x / y)))"

definition float_add :: "pyfloat \<Rightarrow> pyfloat \<Rightarrow> pyfloat" where
  "float_add x y = fl (x + y)"

definition float_sub :: "pyfloat \<Rightarrow> pyfloat \<Rightarrow> pyfloat" where
  "float_sub x y = fl (x - y)"

definition float_mul :: "pyfloat \<Rightarrow> pyfloat \<Rightarrow> pyfloat" where
  "float_mul x y = fl (x * y)"

definition py_int :: "pyfloat \<Rightarrow> int" where
  \<comment> \<open>\<open>int(x)\<close> of a float: the fraction is cut off, towards zero\<close>
  "py_int x = (if 0 \<le> x then \<lfloor>x\<rfloor> else \<lceil>x\<rceil>)"

definition py_round2 :: "pyfloat \<Rightarrow> pyfloat" where
  \<comment> \<open>\<open>round(x, 2)\<close>: the value of \<open>x\<close> rounded to two decimals, ties to even, and the
      double nearest to that decimal\<close>
  "py_round2 x = fl (of_int (round_half_even (x * 100)) / 100)"

section \<open>Role Keyword Resolver\<close>

definition ROLE_PRESETS :: "(ustr \<times> ustr fset) list" where
  "ROLE_PRESETS = [
     (S ''data scientist'', fset_of_list [
        S ''python'', S ''pandas'', S ''numpy'', S ''sklearn'', S ''tensorflow'',
        S ''pytorch'', S ''sql'', S ''statistics'', S ''ml'', S ''classification'',
        S ''regression'', S ''nlp'', S ''feature engineering'', S ''model deployment'',
        S ''experiment tracking'', S ''tableau'', S ''powerbi'', S ''aws'', S ''gcp'',
        S ''azure'', S ''airflow'', S ''mlflow'']),
     (S ''data analyst'', fset_of_list [
        S ''sql'', S ''excel'', S ''powerbi'', S ''tableau'', S ''python'', S ''pandas'',
        S ''visualization'', S ''dashboard'', S ''a/b testing'', S ''forecasting'',
        S ''etl'', S ''reporting'', S ''statistics'', S ''segmentation'', S ''ga4'',
        S ''lookerstudio'']),
     (S ''software engineer'', fset_of_list [
        S ''java'', S ''python'', S ''javascript'', S ''react'', S ''node'', S ''api'',
        S ''rest'', S ''graphql'', S ''docker'', S ''kubernetes'', S ''git'', S ''ci/cd'',
        S ''unit testing'', S ''microservices'', S ''sql'', S ''nosql'',
        S ''design patterns'', S ''testing'']),
     (S ''frontend developer'', fset_of_list [
        S ''javascript'', S ''typescript'', S ''react'', S ''next.js'', S ''redux'',
        S ''html'', S ''css'', S ''tailwind'', S ''vite'', S ''webpack'',
        S ''accessibility'', S ''lighthouse'', S ''jest'', S ''cypress'']),
     (S ''backend developer'', fset_of_list [
        S ''node'', S ''express'', S ''java'', S ''spring'', S ''python'', S ''django'',
        S ''flask'', S ''fastapi'', S ''rest'', S ''graphql'', S ''sql'', S ''postgres'',
        S ''mysql'', S ''redis'', S ''docker'', S ''kubernetes'', S ''microservices'',
        S ''auth'', S ''queue'', S ''rabbitmq'', S ''kafka'']),
     (S ''devops engineer'', fset_of_list [
        S ''docker'', S ''kubernetes'', S ''terraform'', S ''ansible'', S ''aws'',
        S ''gcp'', S ''azure'', S ''ci/cd'', S ''github actions'', S ''gitlab ci'',
        S ''monitoring'', S ''prometheus'', S ''grafana'', S ''helm'', S ''istio'',
        S ''argocd'']),
     (S ''cloud architect'', fset_of_list [
        S ''aws'', S ''gcp'', S ''azure'', S ''iam'', S ''vpc'', S ''load balancer'',
        S ''scalability'', S ''cost optimization'', S ''serverless'', S ''lambda'',
        S ''cloudformation'', S ''terraform'', S ''kubernetes'', S ''disaster recovery'']),
     (S ''product manager'', fset_of_list [
        S ''roadmap'', S ''stakeholders'', S ''requirements'', S ''user research'',
        S ''kpi'', S ''okrs'', S ''backlog'', S ''prioritization'', S ''go to market'',
        S ''a/b testing'', S ''analytics'', S ''jira'', S ''wireframes'', S ''specs'']),
     (S ''ux designer'', fset_of_list [
        S ''ux research'', S ''wireframing'', S ''prototyping'', S ''figma'',
        S ''usability testing'', S ''information architecture'',
        S ''heuristic evaluation'', S ''design system'', S ''accessibility'',
        S ''persona'', S ''journey map'']),
     (S ''business analyst'', fset_of_list [
        S ''requirements'', S ''process mapping'', S ''sql'', S ''excel'',
        S ''dashboards'', S ''stakeholder management'', S ''gap analysis'', S ''kpi'',
        S ''user stories'', S ''confluence'', S ''jira'']),
     (S ''marketing manager'', fset_of_list [
        S ''seo'', S ''sem'', S ''content strategy'', S ''campaigns'', S ''google ads'',
        S ''facebook ads'', S ''analytics'', S ''crm'', S ''a/b testing'',
        S ''email marketing'', S ''automation'', S ''brand strategy'', S ''roi'']),
     (S ''cybersecurity analyst'', fset_of_list [
        S ''siem'', S ''splunk'', S ''wazuh'', S ''ids/ips'',
        S ''vulnerability management'', S ''threat hunting'', S ''incident response'',
        S ''nmap'', S ''wireshark'', S ''linux'', S ''mitre att&ck'', S ''risk assessment'']),
     (S ''qa engineer'', fset_of_list [
        S ''test cases'', S ''test plans'', S ''manual testing'', S ''automation'',
        S ''selenium'', S ''cypress'', S ''jest'', S ''pytest'', S ''ci/cd'',
        S ''regression'', S ''integration'', S ''performance testing'']),
     (S ''housekeeper'', fset_of_list [
        S ''cleaning'', S ''sanitizing'', S ''laundry'', S ''organization'',
        S ''time management'', S ''attention to detail'', S ''inventory'',
        S ''safety procedures'', S ''guest service'', S ''housekeeping'', S ''vacuuming'',
        S ''mopping'', S ''disinfection''])]"

definition or_empty :: "ustr option \<Rightarrow> ustr" where
  \<comment> \<open>\<open>x or ""\<close> for an optional string\<close>
  "or_empty x = (case x of None \<Rightarrow> [] | Some s \<Rightarrow> s)"

definition role_keywords_for :: "unicode_db \<Rightarrow> ustr option \<Rightarrow> ustr option \<Rightarrow> ustr \<Rightarrow> ustr fset" where
  "role_keywords_for U job_role job_desc resume_text =
     (case find (\<lambda>kv. contains (lower U (or_empty job_role)) (fst kv)) ROLE_PRESETS of
        Some kv \<Rightarrow> snd kv
      | None \<Rightarrow>
          if or_empty job_desc \<noteq> []
          then fset_of_list (map fst (most_common 60
                 (Counter (filter (\<lambda>t. 3 \<le> length t) (simple_tokenize U (or_empty job_desc))) [])))
          else fset_of_list (map fst (most_common 40 (Counter (simple_tokenize U resume_text) []))))"

section \<open>Keyword Categorizer\<close>

definition DOMAIN_PRESETS :: "(ustr \<times> ustr fset) list" where
  "DOMAIN_PRESETS = [
     (S ''data scientist'', fset_of_list [
        S ''regression'', S ''classification'', S ''nlp'', S ''feature engineering'',
        S ''model deployment'', S ''experiment tracking'', S ''ml'']),
     (S ''data analyst'', fset_of_list [
        S ''a/b testing'', S ''forecasting'', S ''etl'', S ''segmentation'', S ''reporting'']),
     (S ''frontend developer'', fset_of_list [
        S ''accessibility'', S ''lighthouse'', S ''performance'', S ''ux'']),
     (S ''backend developer'', fset_of_list [
        S ''microservices'', S ''queue'', S ''auth'', S ''caching'']),
     (S ''devops engineer'', fset_of_list [
        S ''monitoring'', S ''observability'', S ''infrastructure as code'', S ''sre'',
        S ''blue/green'']),
     (S ''cloud architect'', fset_of_list [
        S ''disaster recovery'', S ''cost optimization'', S ''scalability'',
        S ''multi region'']),
     (S ''product manager'', fset_of_list [
        S ''roadmap'', S ''prioritization'', S ''okrs'', S ''kpi'', S ''go to market'']),
     (S ''ux designer'', fset_of_list [
        S ''usability testing'', S ''journey map'', S ''persona'',
        S ''heuristic evaluation'']),
     (S ''business analyst'', fset_of_list [
        S ''gap analysis'', S ''process mapping'', S ''requirements'']),
     (S ''marketing manager'', fset_of_list [
        S ''campaigns'', S ''roi'', S ''funnel'', S ''brand strategy'']),
     (S ''cybersecurity analyst'', fset_of_list [
        S ''threat hunting'', S ''incident response'', S ''risk assessment'']),
     (S ''qa engineer'', fset_of_list [
        S ''test plans'', S ''regression'', S ''performance testing'']),
     (S ''housekeeper'', fset_of_list [
        S ''cleaning'', S ''sanitizing'', S ''housekeeping'', S ''laundry'',
        S ''organization'', S ''safety procedures'', S ''guest service'',
        S ''disinfection'', S ''vacuuming'', S ''mopping''])]"

definition soft :: "ustr list" where
  "soft = [S ''communication'', S ''leadership'', S ''collaboration'', S ''time management'',
     S ''attention to detail'', S ''customer service'', S ''problem solving'', S ''teamwork'',
     S ''stakeholder management'', S ''presentation'']"

definition tools :: "ustr list" where
  "tools = [S ''python'', S ''java'', S ''sql'', S ''excel'', S ''tableau'', S ''powerbi'',
     S ''docker'', S ''kubernetes'', S ''git'', S ''jira'', S ''react'', S ''node'',
     S ''tensorflow'', S ''pytorch'', S ''terraform'', S ''ansible'', S ''aws'', S ''gcp'',
     S ''azure'', S ''postgres'', S ''mysql'', S ''redis'', S ''kafka'', S ''figma'',
     S ''selenium'', S ''cypress'']"

definition append_item :: "(ustr \<times> ustr list) list \<Rightarrow> ustr \<Rightarrow> ustr \<Rightarrow> py_error + (ustr \<times> ustr list) list" where
  \<comment> \<open>\<open>cats[name].append(k)\<close>\<close>
  "append_item cats name k =
     (case getitem cats name of Inl e \<Rightarrow> Inl e | Inr l \<Rightarrow> Inr (setitem cats name (l @ [k])))"

fun categorize_loop :: "ustr fset \<Rightarrow> (ustr \<times> ustr list) list \<Rightarrow> ustr list \<Rightarrow> py_error + (ustr \<times> ustr list) list" where
  "categorize_loop domain cats [] = Inr cats"
| "categorize_loop domain cats (k # ks) =
     (case (if k \<in> set soft then append_item cats (S ''Soft skills'') k
            else if k \<in> set tools then append_item cats (S ''Tools/Tech'') k
            else if k |\<in>| domain then append_item cats (S ''Domain'') k
            else append_item cats (S ''Other'') k) of
        Inl e \<Rightarrow> Inl e
      | Inr cats' \<Rightarrow> categorize_loop domain cats' ks)"

definition categorize_keywords :: "unicode_db \<Rightarrow> ustr option \<Rightarrow> ustr fset \<Rightarrow> py_error + (ustr \<times> ustr list) list" where
  "categorize_keywords U job_role keywords =
     categorize_loop
       (case find (\<lambda>kv. contains (lower U (or_empty job_role)) (fst kv)) DOMAIN_PRESETS of
          None \<Rightarrow> {||}
        | Some kv \<Rightarrow> snd kv)
       [(S ''Soft skills'', []), (S ''Tools/Tech'', []), (S ''Domain'', []), (S ''Other'', [])]
       (sorted_list_of_fset keywords)"

section \<open>ATS Scorer\<close>

record ats_result =
  score :: int
  missing_keywords :: "ustr list"
  detected_sections :: "(ustr \<times> int) list"

definition missing_of :: "unicode_db \<Rightarrow> ustr \<Rightarrow> ustr fset \<Rightarrow> ustr list" where
  \<comment> \<open>\<open>sorted([k for k in role_keywords if k not in token_set])\<close>\<close>
  "missing_of U resume_text role_keywords =
     sorted_list_of_fset (ffilter (\<lambda>k. k \<notin> set (simple_tokenize U resume_text)) role_keywords)"

definition coverage_of :: "unicode_db \<Rightarrow> ustr \<Rightarrow> ustr fset \<Rightarrow> py_error + pyfloat" where
  \<comment> \<open>\<open>1.0 - (len(missing) / max(1, len(role_keywords)))\<close>\<close>
  "coverage_of U resume_text role_keywords =
     (case int_truediv (int (length (missing_of U resume_text role_keywords)))
                       (max 1 (int (fcard role_keywords))) of
        Inl e \<Rightarrow> Inl e
      | Inr q \<Rightarrow> Inr (float_sub 1 q))"

definition compute_ats_score :: "unicode_db \<Rightarrow> ustr \<Rightarrow> ustr fset \<Rightarrow> py_error + ats_result" where
  "compute_ats_score U resume_text role_keywords =
     (case coverage_of U resume_text role_keywords of
        Inl e \<Rightarrow> Inl e
      | Inr coverage \<Rightarrow>
          (case detect_sections U resume_text of
             Inl e \<Rightarrow> Inl e
           | Inr section_info \<Rightarrow>
               (case float_truediv (float_of_int (int (length section_info))) 6 of
                  Inl e \<Rightarrow> Inl e
                | Inr r \<Rightarrow>
                    Inr \<lparr> score = max 0 (min 100
                            (py_int (float_add (float_mul (float_of_int 60) coverage)
                                               (float_mul (float_of_int 40) (min 1 r))))),
                          missing_keywords = take 100 (missing_of U resume_text role_keywords),
                          detected_sections = section_info \<rparr>)))"

section \<open>Recruiter-Scan Analyzer\<close>

record scan_result =
  highlights :: ustr
  ignored :: ustr

definition first_lines :: "unicode_db \<Rightarrow> ustr \<Rightarrow> ustr list" where
  \<comment> \<open>\<open>[l.strip() for l in resume_text.splitlines()[:20] if l.strip()]\<close>\<close>
  "first_lines U resume_text =
     map (strip U) (filter (\<lambda>l. strip U l \<noteq> []) (take 20 (splitlines resume_text)))"

definition analyze_recruiter_scan :: "unicode_db \<Rightarrow> ustr \<Rightarrow> scan_result" where
  "analyze_recruiter_scan U resume_text =
     \<lparr> highlights =
         (if join [10] (take 8 (first_lines U resume_text)) = []
          then S ''No immediate highlights detected.''
          else join [10] (take 8 (first_lines U resume_text))),
       ignored =
         (if 8 < length (first_lines U resume_text)
          then join [10] (drop 8 (first_lines U resume_text))
          else S ''Short resume header; focus on punchy summary.'') \<rparr>"

section \<open>Visual Insights Analyzer\<close>

record readability =
  avg_sentence_length :: pyfloat
  word_count :: int
  estimated_read_time_min :: pyfloat

record insights =
  keyword_density :: "(ustr \<times> int) list"
  section_balance :: "(ustr \<times> int) list"
  readability :: readability

definition sentences_of :: "ustr \<Rightarrow> int" where
  \<comment> \<open>\<open>max(1, resume_text.count('.') + resume_text.count('!') + resume_text.count('?'))\<close>\<close>
  "sentences_of resume_text =
     max 1 (int (count_list resume_text 46) + int (count_list resume_text 33)
            + int (count_list resume_text 63))"

definition analyze_visual_insights :: "unicode_db \<Rightarrow> ustr \<Rightarrow> ustr fset \<Rightarrow> py_error + insights" where
  "analyze_visual_insights U resume_text role_keywords =
     (case detect_sections U resume_text of
        Inl e \<Rightarrow> Inl e
      | Inr sections \<Rightarrow>
          (case int_truediv (int (length (simple_tokenize U resume_text)))
                            (sentences_of resume_text) of
             Inl e \<Rightarrow> Inl e
           | Inr avg_sentence_len \<Rightarrow>
               (case float_truediv (float_of_int (int (length (simple_tokenize U resume_text)))) 200 of
                  Inl e \<Rightarrow> Inl e
                | Inr read_time \<Rightarrow>
                    Inr \<lparr> keyword_density =
                            map (\<lambda>k. (k, get_default (Counter (simple_tokenize U resume_text) []) k 0))
                                (take 25 (sorted_list_of_fset role_keywords)),
                          section_balance = sections,
                          readability =
                            \<lparr> avg_sentence_length = py_round2 avg_sentence_len,
                              word_count = int (length (simple_tokenize U resume_text)),
                              estimated_read_time_min = py_round2 read_time \<rparr> \<rparr>)))"

section \<open>Achievement Flagger\<close>

record suggestion_item =
  original :: ustr
  suggestion :: ustr

definition is_bullet_glyph :: "cp \<Rightarrow> bool" where
  \<comment> \<open>the class \<open>[\-\u2022\*]\<close>\<close>
  "is_bullet_glyph c = (c = 45 \<or> c = 8226 \<or> c = 42)"

fun content_after :: "ustr \<Rightarrow> nat \<Rightarrow> (ustr \<times> nat) option" where
  \<comment> \<open>\<open>\s+(.+)\<close> on \<open>s\<close>, which begins with \<open>k\<close> whitespace code points: the longest run
      of whitespace after which a code point other than LF follows; then the group is the
      text up to the next LF or to the end. Gives the group and the length of the match.\<close>
  "content_after s 0 = None"
| "content_after s (Suc k) =
     (case drop (Suc k) s of
        [] \<Rightarrow> content_after s k
      | c # cs \<Rightarrow> if c \<noteq> 10
                 then Some (takeWhile (\<lambda>x. x \<noteq> 10) (c # cs),
                            Suc k + length (takeWhile (\<lambda>x. x \<noteq> 10) (c # cs)))
                 else content_after s k)"

definition match_glyph :: "unicode_db \<Rightarrow> ustr \<Rightarrow> (ustr \<times> nat) option" where
  \<comment> \<open>\<open>[\-\u2022\*]\s+(.+)\<close> at the front of \<open>s\<close>: the group and how many code points the
      match spans after the glyph\<close>
  "match_glyph U s =
     (case s of
        [] \<Rightarrow> None
      | c # cs \<Rightarrow> if is_bullet_glyph c then content_after cs (length (takeWhile (isspace U) cs))
                 else None)"

definition match_bullet :: "unicode_db \<Rightarrow> bool \<Rightarrow> ustr \<Rightarrow> (ustr \<times> nat) option" where
  \<comment> \<open>\<open>(?:^|\n)[\-\u2022\*]\s+(.+)\<close> at the front of \<open>s\<close>: the group and how many code
      points the match spans after its first one. \<open>at_start\<close> tells whether this is the
      beginning of the whole text, the only place where \<open>^\<close> matches (the pattern is
      compiled without \<open>re.MULTILINE\<close>). The second alternative is tried when the first one
      does not lead to a match.\<close>
  "match_bullet U at_start s =
     (case (if at_start then match_glyph U s else None) of
        Some r \<Rightarrow> Some r
      | None \<Rightarrow>
          (case s of
             [] \<Rightarrow> None
           | c # cs \<Rightarrow>
               if c = 10
               then (case match_glyph U cs of None \<Rightarrow> None | Some (g, n) \<Rightarrow> Some (g, Suc n))
               else None))"

fun findall_bullets :: "unicode_db \<Rightarrow> bool \<Rightarrow> ustr \<Rightarrow> ustr list" where
  \<comment> \<open>\<open>re.findall\<close>: the groups of the matches from left to right; the search goes on
      where the last match ended, or one code point further when there is no match\<close>
  "findall_bullets U at_start [] = []"
| "findall_bullets U at_start (c # cs) =
     (case match_bullet U at_start (c # cs) of
        Some (bullet, n) \<Rightarrow> bullet # findall_bullets U False (drop n cs)
      | None \<Rightarrow> findall_bullets U False cs)"

definition bullet_like :: "unicode_db \<Rightarrow> ustr \<Rightarrow> ustr list" where
  "bullet_like U resume_text = findall_bullets U True resume_text"

definition vague_patterns :: "ustr list" where
  "vague_patterns = [S ''responsible for'', S ''worked on'', S ''helped with'', S ''assisted'',
     S ''involved in'']"

definition rewrite_hint :: ustr where
  "rewrite_hint = S ''Rewrite with action + metric. Example: '' @ [39]
     @ S ''Led a team of 8 to deliver X, achieving Y% improvement.'' @ [39]"

definition is_vague :: "unicode_db \<Rightarrow> ustr \<Rightarrow> bool" where
  \<comment> \<open>\<open>any(pat in lower for pat in vague_patterns) and len(bullet.split()) >= 4\<close>\<close>
  "is_vague U bullet =
     (list_ex (\<lambda>pat. contains (lower U bullet) pat) vague_patterns \<and> 4 \<le> length (split U bullet))"

fun flag_loop :: "unicode_db \<Rightarrow> suggestion_item list \<Rightarrow> ustr list \<Rightarrow> suggestion_item list" where
  \<comment> \<open>the loop over the bullets, with the variable \<open>suggestions\<close>\<close>
  "flag_loop U suggestions [] = suggestions"
| "flag_loop U suggestions (bullet # rest) =
     (if is_vague U bullet
      then flag_loop U (suggestions @ [\<lparr> original = strip U bullet, suggestion = rewrite_hint \<rparr>]) rest
      else flag_loop U suggestions rest)"

definition suggest_quantified_achievements :: "unicode_db \<Rightarrow> ustr \<Rightarrow> suggestion_item list" where
  "suggest_quantified_achievements U resume_text =
     take 20 (flag_loop U [] (take 60 (bullet_like U resume_text)))"

section \<open>Matches of the bullet pattern\<close>

text \<open>
  What it means for the pattern \<open>(?:^|\n)[\-\u2022\*]\s+(.+)\<close> to match, said without the
  search procedure. The properties of the Achievement Flagger relate \<open>findall_bullets\<close> to
  these matches.
\<close>

record occurrence =
  from_pos :: nat
  bullet_text :: ustr
  to_pos :: nat

definition bullet_match :: "unicode_db \<Rightarrow> bool \<Rightarrow> ustr \<Rightarrow> ustr \<Rightarrow> ustr \<Rightarrow> bool" where
  \<comment> \<open>the pattern matches a front part of \<open>s\<close> with group \<open>b\<close> and leaves \<open>rest\<close>: the empty
      string at the beginning of the text or one LF, a glyph, whitespace, and the group, which
      has no LF and goes up to an LF or to the end. \<open>\s+\<close> is greedy, so the group begins with
      a code point that is not whitespace; unless only LFs follow the whitespace up to the end
      of the text, where \<open>\s+\<close> gives back what it must and the group is the last whitespace
      code point other than LF.\<close>
  "bullet_match U at_start s b rest =
     (\<exists>lead g ws. s = lead @ g # ws @ b @ rest
        \<and> (lead = [] \<and> at_start \<or> lead = [10])
        \<and> is_bullet_glyph g
        \<and> ws \<noteq> [] \<and> (\<forall>c\<in>set ws. isspace U c)
        \<and> b \<noteq> [] \<and> 10 \<notin> set b \<and> (rest = [] \<or> hd rest = 10)
        \<and> (\<not> isspace U (hd b) \<or> length b = 1 \<and> (\<forall>c\<in>set rest. c = 10)))"

definition match_at :: "unicode_db \<Rightarrow> ustr \<Rightarrow> nat \<Rightarrow> ustr \<Rightarrow> nat \<Rightarrow> bool" where
  \<comment> \<open>the pattern matches the code points \<open>p\<close> to \<open>e - 1\<close> of the text \<open>t\<close>, with group \<open>b\<close>\<close>
  "match_at U t p b e =
     (p < e \<and> e \<le> length t \<and> bullet_match U (p = 0) (drop p t) b (drop e t))"

section \<open>Values named in the theorems\<close>

definition coverage_value :: "int \<Rightarrow> int \<Rightarrow> pyfloat" where
  \<comment> \<open>the double that \<open>1.0 - (m / max(1, n))\<close> gives\<close>
  "coverage_value m n = fl (1 - fl (of_int m / of_int (max 1 n)))"

definition ats_value :: "pyfloat \<Rightarrow> int \<Rightarrow> pyfloat" where
  \<comment> \<open>the double that \<open>60 * coverage + 40 * min(1.0, n / 6.0)\<close> gives\<close>
  "ats_value coverage n = fl (fl (60 * coverage) + fl (40 * min 1 (fl (float_of_int n / 6))))"

definition make_item :: "unicode_db \<Rightarrow> ustr \<Rightarrow> suggestion_item" where
  \<comment> \<open>the pair that \<open>suggestions.append\<close> adds for a bullet\<close>
  "make_item U bullet = \<lparr> original = strip U bullet, suggestion = rewrite_hint \<rparr>"

section \<open>The wording of the specification\<close>

text \<open>
  Where the specification says something else than the code does, what it says is written
  down here, to be compared with the code on a concrete input.
\<close>

definition spec_detect_sections :: "unicode_db \<Rightarrow> ustr \<Rightarrow> py_error + (ustr \<times> int) list" where
  \<comment> \<open>the Section Detector with the fallback trigger of the specification: fewer than 2
      sections of non-zero weight, or a combined weight below 3\<close>
  "spec_detect_sections U text =
     (case heading_pass U text of
        Inl e \<Rightarrow> Inl e
      | Inr p \<Rightarrow>
          if length (filter (\<lambda>kv. snd kv \<noteq> 0) p) < 2 \<or> sum_list (map snd p) < 3
          then keyword_pass U text
          else Inr p)"

definition spec_ats_score :: "nat \<Rightarrow> nat \<Rightarrow> nat \<Rightarrow> int" where
  \<comment> \<open>the score of the specification, from the numbers of missing keywords, of role
      keywords and of detected sections: rounded to the nearest integer, then clamped\<close>
  "spec_ats_score m n s =
     max 0 (min 100 (round (60 * (1 - of_nat m / of_nat (max 1 n)) + 40 * min 1 (of_nat s / 6 :: rat))))"

definition spec_first_lines :: "unicode_db \<Rightarrow> ustr \<Rightarrow> ustr list" where
  \<comment> \<open>the lines the specification selects: the first 20 non-blank lines of the document\<close>
  "spec_first_lines U resume_text =
     map (strip U) (take 20 (filter (\<lambda>l. strip U l \<noteq> []) (splitlines resume_text)))"



section \<open>Example texts\<close>

definition three_lines :: ustr where
  \<comment> \<open>the lines \<open>a\<close>, \<open>b\<close> and \<open>c\<close>\<close>
  "three_lines = [97, 10, 98, 10, 99]"

definition blank_then_x :: ustr where
  \<comment> \<open>twenty empty lines and then the line \<open>x\<close>\<close>
  "blank_then_x = [10, 10, 10, 10, 10, 10, 10, 10, 10, 10, 10, 10, 10, 10, 10, 10, 10, 10, 10, 10, 120]"



definition second_line_bullet :: ustr where
  \<comment> \<open>a heading, a bullet on the second line and one on the third\<close>
  "second_line_bullet = S ''Work'' @ [10] @ S ''- worked on the new billing system'' @ [10]
     @ S ''* python''"

definition spec_example :: ustr where
  \<comment> \<open>the resume text of the example in the specification\<close>
  "spec_example = S ''John Doe'' @ [10] @ S ''Summary'' @ [10] @ S ''Experienced engineer.''
     @ [10] @ S ''Experience'' @ [10] @ S ''- responsible for managing a team of five people''"

section \<open>Properties of dictionaries\<close>

lemma getitem_member: "k \<in> fst ` set d \<Longrightarrow> \<exists>v. getitem d k = Inr v \<and> (k, v) \<in> set d"
proof (induction d)
  case Nil
  then show ?case by simp
next
  case (Cons kv d)
  show ?case
  proof (cases "fst kv = k")
    case True
    then show ?thesis by (cases kv) auto
  next
    case False
    with Cons.prems have "k \<in> fst ` set d" by auto
    from Cons.IH [OF this] False show ?thesis by (cases kv) auto
  qed
qed

lemma getitem_in_set: "getitem d k = Inr v \<Longrightarrow> (k, v) \<in> set d"
  by (induction d) (auto split: if_splits)

lemma keys_setitem: "fst ` set (setitem d k v) = insert k (fst ` set d)"
proof (induction d)
  case Nil
  then show ?case by simp
next
  case (Cons kv d)
  then show ?case by (cases kv) (simp add: insert_commute)
qed

lemma set_setitem_subset: "set (setitem d k v) \<subseteq> insert (k, v) (set d)"
  by (induction d) (auto split: if_splits)

lemma get_default_cases: "get_default d k dflt = dflt \<or> (k, get_default d k dflt) \<in> set d"
  by (induction d) (auto split: if_splits)

lemma sum_setitem_add:
  fixes d :: "('k \<times> int) list"
  shows "sum_list (map snd (setitem d k (get_default d k 0 + w))) = sum_list (map snd d) + w"
  by (induction d) auto

section \<open>Properties of the Section Detector\<close>

lemma int_floordiv_numeral [simp]: "int_floordiv a (numeral n) = Inr (a div numeral n)"
  by (simp add: int_floordiv_def)

lemma line_weight_eq: "line_weight line = Inr (max 1 (int (length line) div 60))"
  by (simp add: line_weight_def)

lemma first_alias_total:
  "set keys \<subseteq> fst ` set SECTION_ALIASES \<Longrightarrow>
   \<exists>m. first_alias U s keys = Inr m \<and> (\<forall>sec. m = Some sec \<longrightarrow> sec \<in> snd ` set SECTION_ALIASES)"
proof (induction keys)
  case Nil
  then show ?case by simp
next
  case (Cons a rest)
  show ?case
  proof (cases "alias_search U a s")
    case True
    from Cons.prems have "a \<in> fst ` set SECTION_ALIASES" by simp
    from getitem_member [OF this]
    obtain v where v: "getitem SECTION_ALIASES a = Inr v" "(a, v) \<in> set SECTION_ALIASES"
      by (elim exE conjE)
    from v(2) have "v \<in> snd ` set SECTION_ALIASES" by (rule rev_image_eqI) simp
    moreover from True v(1) have "first_alias U s (a # rest) = Inr (Some v)" by simp
    ultimately show ?thesis by simp
  next
    case False
    from Cons.prems have "set rest \<subseteq> fst ` set SECTION_ALIASES" by simp
    from Cons.IH [OF this] False show ?thesis by simp
  qed
qed

lemma aliases_canonical: "snd ` set SECTION_ALIASES \<subseteq> set CANONICAL_SECTIONS"
  by (simp add: SECTION_ALIASES_def CANONICAL_SECTIONS_def)

lemma summary_canonical: "S ''summary'' \<in> set CANONICAL_SECTIONS"
  by (simp add: CANONICAL_SECTIONS_def)

lemma first_alias_table:
  "\<exists>m. first_alias U s (map fst SECTION_ALIASES) = Inr m
       \<and> (\<forall>sec. m = Some sec \<longrightarrow> sec \<in> set CANONICAL_SECTIONS)"
proof -
  have "set (map fst SECTION_ALIASES) \<subseteq> fst ` set SECTION_ALIASES" by simp
  from first_alias_total [OF this, of U s] aliases_canonical show ?thesis by blast
qed

lemma switch_section_canonical:
  "current \<in> set CANONICAL_SECTIONS \<Longrightarrow> \<forall>sec. m = Some sec \<longrightarrow> sec \<in> set CANONICAL_SECTIONS \<Longrightarrow>
   switch_section current m line \<in> set CANONICAL_SECTIONS"
  by (auto simp: switch_section_def split: option.splits)

lemma scan_lines_invariant:
  assumes "current \<in> set CANONICAL_SECTIONS"
      and "fst ` set sl \<subseteq> set CANONICAL_SECTIONS"
      and "\<forall>kv\<in>set sl. 1 \<le> snd kv"
  shows "\<exists>sl'. scan_lines U current sl ls = Inr sl'
            \<and> fst ` set sl' \<subseteq> set CANONICAL_SECTIONS
            \<and> (\<forall>kv\<in>set sl'. 1 \<le> snd kv)
            \<and> sum_list (map snd sl') = sum_list (map snd sl) + line_weights ls"
  using assms
proof (induction ls arbitrary: current sl)
  case Nil
  then show ?case by (simp add: line_weights_def)
next
  case (Cons line rest)
  obtain m where m: "first_alias U (lower U line) (map fst SECTION_ALIASES) = Inr m"
      "\<forall>sec. m = Some sec \<longrightarrow> sec \<in> set CANONICAL_SECTIONS"
    using first_alias_table by blast
  define c where "c = switch_section current m line"
  define w where "w = max 1 (int (length line) div 60)"
  define sl1 where "sl1 = setitem sl c (get_default sl c 0 + w)"
  have c: "c \<in> set CANONICAL_SECTIONS"
    unfolding c_def using Cons.prems(1) m(2) by (rule switch_section_canonical)
  have keys: "fst ` set sl1 \<subseteq> set CANONICAL_SECTIONS"
    unfolding sl1_def using c Cons.prems(2) by (simp add: keys_setitem)
  have "0 \<le> get_default sl c 0"
    using get_default_cases [of sl c 0] Cons.prems(3) by force
  then have "1 \<le> get_default sl c 0 + w" by (simp add: w_def)
  then have pos: "\<forall>kv\<in>set sl1. 1 \<le> snd kv"
    unfolding sl1_def using set_setitem_subset [of sl c "get_default sl c 0 + w"] Cons.prems(3)
    by auto
  have sum: "sum_list (map snd sl1) = sum_list (map snd sl) + w"
    unfolding sl1_def by (rule sum_setitem_add)
  from Cons.IH [OF c keys pos] obtain sl' where sl':
      "scan_lines U c sl1 rest = Inr sl'" "fst ` set sl' \<subseteq> set CANONICAL_SECTIONS"
      "\<forall>kv\<in>set sl'. 1 \<le> snd kv"
      "sum_list (map snd sl') = sum_list (map snd sl1) + line_weights rest"
    by blast
  have "scan_lines U current sl (line # rest) = scan_lines U c sl1 rest"
    by (simp add: m(1) line_weight_eq c_def sl1_def w_def)
  with sl' sum show ?case by (simp add: line_weights_def w_def)
qed

lemma heading_pass_result:
  "\<exists>p. heading_pass U text = Inr p
       \<and> fst ` set p \<subseteq> set CANONICAL_SECTIONS
       \<and> (\<forall>kv\<in>set p. 1 \<le> snd kv)
       \<and> sum_list (map snd p) = line_weights (nonblank_lines U text)"
proof -
  from scan_lines_invariant [of "S ''summary''" "[]" U "nonblank_lines U text"]
  obtain sl where sl: "scan_lines U (S ''summary'') [] (nonblank_lines U text) = Inr sl"
      "fst ` set sl \<subseteq> set CANONICAL_SECTIONS" "\<forall>kv\<in>set sl. 1 \<le> snd kv"
      "sum_list (map snd sl) = line_weights (nonblank_lines U text)"
    using summary_canonical by auto
  have "filter (\<lambda>kv. fst kv \<in> set CANONICAL_SECTIONS) sl = sl"
    using sl(2) by (auto intro: filter_True)
  with sl show ?thesis by (simp add: heading_pass_def)
qed

lemma normalize_fallback_total:
  "set ks \<subseteq> fst ` set fb \<Longrightarrow> \<exists>fb'. normalize_fallback fb ks = Inr fb'"
proof (induction ks arbitrary: fb)
  case Nil
  then show ?case by simp
next
  case (Cons k ks)
  from Cons.prems have "k \<in> fst ` set fb" by simp
  from getitem_member [OF this] obtain v where v: "getitem fb k = Inr v"
    by (elim exE conjE)
  have "set ks \<subseteq> fst ` set (setitem fb k (max 1 (v div 2)))"
    using Cons.prems by (auto simp: keys_setitem)
  from Cons.IH [OF this] Cons.IH [of fb] Cons.prems v show ?case by auto
qed

lemma keyword_pass_result:
  "\<exists>q. keyword_pass U text = Inr q \<and> (\<forall>kv\<in>set q. 1 \<le> snd kv)"
proof -
  define fb where "fb = fill_fallback (Counter (simple_tokenize U text) []) [] heuristics"
  obtain fb' where "normalize_fallback fb (map fst fb) = Inr fb'"
    using normalize_fallback_total [of "map fst fb" fb] by auto
  then show ?thesis by (auto simp: keyword_pass_def fb_def Let_def)
qed

lemma detect_sections_eq:
  "heading_pass U text = Inr p \<Longrightarrow>
   detect_sections U text = (if sum_list (map snd p) < 3 then keyword_pass U text else Inr p)"
  by (auto simp: detect_sections_def)

lemmas char_class_defs =
  is_upper_def is_lower_def is_digit_def is_letter_def is_token_char_def ascii_lower_def
  isspace_def is_linebreak_def word_char_def icase_match_def

lemmas string_defs =
  S_def lower_def lower_cp_def strip_def lstrip_def rstrip_def split_def splitlines_def simple_tokenize_def

lemmas detector_defs =
  heading_pass_def keyword_pass_def detect_sections_def nonblank_lines_def line_weight_def
  switch_section_def alias_search_def match_alias_def SECTION_ALIASES_def
  CANONICAL_SECTIONS_def heuristics_def

lemma heading_pass_three_lines: "heading_pass U three_lines = Inr [(S ''summary'', 3)]"
  by (simp add: three_lines_def char_class_defs string_defs detector_defs)

lemma keyword_pass_three_lines: "keyword_pass U three_lines = Inr []"
  by (simp add: three_lines_def char_class_defs string_defs detector_defs)

lemma detect_sections_three_lines: "detect_sections U three_lines = Inr [(S ''summary'', 3)]"
  using detect_sections_eq [OF heading_pass_three_lines, of U] by simp

text \<open>
  C10: every section in the map the Section Detector returns has weight at least 1, in the
  result of the heading-driven pass, in the result of the keyword-density pass and so in
  the result of \<open>detect_sections\<close>, which also never raises.
\<close>

theorem detect_sections_weights_positive:
  "(\<exists>p. heading_pass U text = Inr p \<and> (\<forall>kv\<in>set p. 1 \<le> snd kv))
   \<and> (\<exists>q. keyword_pass U text = Inr q \<and> (\<forall>kv\<in>set q. 1 \<le> snd kv))
   \<and> (\<exists>m. detect_sections U text = Inr m \<and> (\<forall>kv\<in>set m. 1 \<le> snd kv))"
proof -
  obtain p where p: "heading_pass U text = Inr p" "\<forall>kv\<in>set p. 1 \<le> snd kv"
    using heading_pass_result [of U "text"] by (elim exE conjE)
  obtain q where q: "keyword_pass U text = Inr q" "\<forall>kv\<in>set q. 1 \<le> snd kv"
    using keyword_pass_result [of U "text"] by (elim exE conjE)
  have "detect_sections U text = Inr q \<or> detect_sections U text = Inr p"
    using detect_sections_eq [OF p(1)] q(1) by simp
  with p q show ?thesis by auto
qed

theorem detect_sections_weights_positive_witness:
  "detect_sections ascii_db three_lines = Inr [(S ''summary'', 3)]
   \<and> (S ''summary'', 3) \<in> set [(S ''summary'', 3::int)]
   \<and> (1::int) \<le> snd (S ''summary'', 3::int)"
  using detect_sections_weights_positive [of ascii_db three_lines]
  by (simp add: detect_sections_three_lines)

text \<open>
  C2, as the specification words it: the keyword-density map is returned if and only if the
  heading-driven pass gives fewer than 2 sections of non-zero weight or a combined weight
  below 3. On a text of three short lines without a heading the code keeps the map of the
  heading-driven pass, a single section of weight 3, where the specification asks for the
  keyword-density map, which is empty.
\<close>

theorem detect_sections_fallback_counterexample:
  "detect_sections ascii_db three_lines = Inr [(S ''summary'', 3)]
   \<and> spec_detect_sections ascii_db three_lines = Inr []"
  by (simp add: detect_sections_three_lines spec_detect_sections_def heading_pass_three_lines
      keyword_pass_three_lines)

text \<open>
  C2, amended: the heading-driven pass always gives a map, whose combined weight is the sum
  of \<open>max(1, len(line) // 60)\<close> over the non-blank lines. The Section Detector returns the
  keyword-density map if and only if that map is empty or its combined weight is below 3,
  which is the case exactly when the combined weight is below 3; otherwise it returns the
  map of the heading-driven pass. The number of sections in the map is not tested.
\<close>

theorem detect_sections_fallback:
  "\<exists>p. heading_pass U text = Inr p
       \<and> sum_list (map snd p) = line_weights (nonblank_lines U text)
       \<and> ((p = [] \<or> sum_list (map snd p) < 3) = (line_weights (nonblank_lines U text) < 3))
       \<and> detect_sections U text =
           (if line_weights (nonblank_lines U text) < 3 then keyword_pass U text else Inr p)"
proof -
  obtain p where p: "heading_pass U text = Inr p"
      "sum_list (map snd p) = line_weights (nonblank_lines U text)"
    using heading_pass_result [of U "text"] by (elim exE conjE)
  have "p = [] \<Longrightarrow> sum_list (map snd p) < 3" by simp
  with p detect_sections_eq [OF p(1)] show ?thesis by auto
qed

theorem detect_sections_fallback_witness:
  "heading_pass ascii_db three_lines = Inr [(S ''summary'', 3)]
   \<and> line_weights (nonblank_lines ascii_db three_lines) = 3
   \<and> detect_sections ascii_db three_lines = Inr [(S ''summary'', 3)]"
  using detect_sections_fallback [of ascii_db three_lines]
  by (simp add: heading_pass_three_lines)

section \<open>Properties of the floating-point model\<close>

lemma pow2_powi: "pow2 e = 2 powi e"
  by (simp add: pow2_def power_int_def inverse_eq_divide power_one_over)

lemma pow2_pos [simp]: "0 < pow2 e"
  by (simp add: pow2_def)

lemma pow2_nonneg [simp]: "0 \<le> pow2 e"
  using pow2_pos [of e] by (simp only: less_imp_le)

lemma pow2_neq0 [simp]: "pow2 e \<noteq> 0"
  by (simp add: pow2_def)

lemma pow2_add: "pow2 (a + b) = pow2 a * pow2 b"
  by (simp add: pow2_powi power_int_add)

lemma pow2_diff: "pow2 (a - b) = pow2 a / pow2 b"
  by (simp add: pow2_powi power_int_diff)

lemma pow2_mono: "a \<le> b \<Longrightarrow> pow2 a \<le> pow2 b"
  by (simp add: pow2_powi power_int_increasing)

lemma pow2_less_imp_less: "pow2 a < pow2 b \<Longrightarrow> a < b"
  using pow2_mono [of b a] by (cases "a < b") auto

lemma pow2_nat: "pow2 (int n) = 2 ^ n"
  by (simp add: pow2_def)

lemma pow2_nonneg_int: "0 \<le> e \<Longrightarrow> pow2 e = of_int (2 ^ nat e)"
  by (simp add: pow2_def)

lemma round_half_even_of_int [simp]: "round_half_even (of_int n) = n"
  by (simp add: round_half_even_def)

lemma round_half_even_numeral [simp]: "round_half_even (numeral n) = numeral n"
  using round_half_even_of_int [of "numeral n"] by simp

lemma round_half_even_le: "x \<le> of_int n \<Longrightarrow> round_half_even x \<le> n"
proof -
  assume le: "x \<le> of_int n"
  then have fl: "\<lfloor>x\<rfloor> \<le> n" by (simp add: floor_le_iff)
  show ?thesis
  proof (cases "\<lfloor>x\<rfloor> = n")
    case True
    with le have "x = of_int n" using of_int_floor_le [of x] by simp
    then show ?thesis by simp
  next
    case False
    with fl have "\<lfloor>x\<rfloor> + 1 \<le> n" by simp
    then show ?thesis by (simp add: round_half_even_def)
  qed
qed

lemma round_half_even_nonneg: "0 \<le> x \<Longrightarrow> 0 \<le> round_half_even x"
  by (simp add: round_half_even_def)

lemma binade_bounds:
  assumes "0 < x"
  shows "pow2 (binade x) \<le> x \<and> x < pow2 (binade x + 1)"
proof -
  obtain p q where pq: "quotient_of x = (p, q)" by (cases "quotient_of x")
  then have q: "0 < q" and x: "x = of_int p / of_int q"
    by (simp_all add: quotient_of_denom_pos quotient_of_div)
  from assms x q have p: "0 < p" by (simp add: zero_less_divide_iff)
  define bp where "bp = nat (bitlen p)"
  define bq where "bq = nat (bitlen q)"
  from bitlen_bounds [OF p] have bp: "2 ^ (bp - 1) \<le> p" "p < 2 ^ bp"
    by (simp_all add: bp_def nat_diff_distrib' bitlen_nonneg)
  from bitlen_bounds [OF q] have bq: "2 ^ (bq - 1) \<le> q" "q < 2 ^ bq"
    by (simp_all add: bq_def nat_diff_distrib' bitlen_nonneg)
  have bp1: "1 \<le> bp" using bp(2) p by (cases bp) auto
  have bq1: "1 \<le> bq" using bq(2) q by (cases bq) auto
  have k: "bitlen p - bitlen q = int bp - int bq"
    by (simp add: bp_def bq_def bitlen_nonneg)
  have up: "x < pow2 (int bp - int bq + 1)"
  proof -
    have "of_int p < (2::rat) ^ bp" using bp(2) by (metis of_int_less_iff of_int_numeral of_int_power)
    moreover have "(2::rat) ^ (bq - 1) \<le> of_int q"
      using bq(1) by (metis of_int_le_iff of_int_numeral of_int_power)
    ultimately have "x < 2 ^ bp / 2 ^ (bq - 1)"
      unfolding x using q p by (intro frac_less) simp_all
    also have "\<dots> = pow2 (int bp - int (bq - 1))"
      by (simp add: pow2_diff pow2_nat)
    also have "int bp - int (bq - 1) = int bp - int bq + 1" using bq1 by simp
    finally show ?thesis .
  qed
  have low: "pow2 (int bp - int bq - 1) < x"
  proof -
    have "(2::rat) ^ (bp - 1) \<le> of_int p"
      using bp(1) by (metis of_int_le_iff of_int_numeral of_int_power)
    moreover have "of_int q < (2::rat) ^ bq"
      using bq(2) by (metis of_int_less_iff of_int_numeral of_int_power)
    ultimately have "x > 2 ^ (bp - 1) / 2 ^ bq"
      unfolding x using q p by (intro frac_less2) simp_all
    also have "(2::rat) ^ (bp - 1) / 2 ^ bq = pow2 (int (bp - 1) - int bq)"
      by (simp add: pow2_diff pow2_nat)
    also have "int (bp - 1) - int bq = int bp - int bq - 1" using bp1 by simp
    finally show ?thesis .
  qed
  show ?thesis
  proof (cases "pow2 (int bp - int bq) \<le> x")
    case True
    then have "binade x = int bp - int bq" by (simp add: binade_def pq k)
    with True up show ?thesis by simp
  next
    case False
    then have "binade x = int bp - int bq - 1" by (simp add: binade_def pq k)
    with False low show ?thesis by simp
  qed
qed

lemma binade_unique:
  assumes "0 < x" "pow2 k \<le> x" "x < pow2 (k + 1)"
  shows "binade x = k"
proof -
  from binade_bounds [OF assms(1)]
  have b: "pow2 (binade x) \<le> x" "x < pow2 (binade x + 1)" by simp_all
  from b(1) assms(3) have "pow2 (binade x) < pow2 (k + 1)" by simp
  then have "binade x < k + 1" by (rule pow2_less_imp_less)
  moreover from assms(2) b(2) have "pow2 k < pow2 (binade x + 1)" by simp
  then have "k < binade x + 1" by (rule pow2_less_imp_less)
  ultimately show ?thesis by simp
qed

lemma binade_mono:
  assumes "0 < x" "x \<le> y"
  shows "binade x \<le> binade y"
proof -
  from assms have y: "0 < y" by simp
  from binade_bounds [OF assms(1)] binade_bounds [OF y] assms(2)
  have "pow2 (binade x) < pow2 (binade y + 1)" by simp
  then have "binade x < binade y + 1" by (rule pow2_less_imp_less)
  then show ?thesis by simp
qed

lemma fl_zero [simp]: "fl 0 = 0"
  by (simp add: fl_def)

lemma fl_pos:
  "0 < x \<Longrightarrow> fl x = of_int (round_half_even (x / pow2 (binade x - 52))) * pow2 (binade x - 52)"
  by (simp add: fl_def)

lemma fl_eval:
  assumes "0 < x" "pow2 k \<le> x" "x < pow2 (k + 1)"
  shows "fl x = of_int (round_half_even (x / pow2 (k - 52))) * pow2 (k - 52)"
  using fl_pos [OF assms(1)] binade_unique [OF assms] by simp

lemma fl_nonneg: "0 \<le> x \<Longrightarrow> 0 \<le> fl x"
proof (cases "x = 0")
  case True
  then show ?thesis by simp
next
  case False
  assume "0 \<le> x"
  with False have x: "0 < x" by simp
  have "0 \<le> round_half_even (x / pow2 (binade x - 52))"
    using x by (intro round_half_even_nonneg) (simp add: less_imp_le)
  then show ?thesis by (simp add: fl_pos [OF x])
qed

lemma fl_le:
  assumes c: "fl c = c" and x: "0 \<le> x" "x \<le> c"
  shows "fl x \<le> c"
proof (cases "x = 0")
  case True
  with x show ?thesis by simp
next
  case False
  with x have xp: "0 < x" by simp
  with x have cp: "0 < c" by simp
  define ex where "ex = binade x - 52"
  define ec where "ec = binade c - 52"
  define M where "M = round_half_even (c / pow2 ec)"
  have le: "ex \<le> ec" unfolding ex_def ec_def using binade_mono [OF xp x(2)] by simp
  have cM: "c = of_int M * pow2 ec"
    using fl_pos [OF cp] c by (simp add: M_def ec_def)
  have "pow2 ec = pow2 (ec - ex) * pow2 ex"
    using pow2_add [of "ec - ex" ex] by simp
  also have "pow2 (ec - ex) = of_int (2 ^ nat (ec - ex))"
    using le by (intro pow2_nonneg_int) simp
  finally have "pow2 ec / pow2 ex = of_int (2 ^ nat (ec - ex))"
    using pow2_pos [of ex] by simp
  then have cN: "c / pow2 ex = of_int (M * 2 ^ nat (ec - ex))"
    using cM times_divide_eq_right [of "of_int M" "pow2 ec" "pow2 ex"] by simp
  have "x / pow2 ex \<le> c / pow2 ex" using x(2) by (simp add: divide_right_mono)
  with cN have "round_half_even (x / pow2 ex) \<le> M * 2 ^ nat (ec - ex)"
    by (intro round_half_even_le) simp
  then have "(of_int (round_half_even (x / pow2 ex)) :: rat) \<le> of_int (M * 2 ^ nat (ec - ex))"
    by (simp only: of_int_le_iff)
  then have "of_int (round_half_even (x / pow2 ex)) * pow2 ex \<le> (c / pow2 ex) * pow2 ex"
    unfolding cN by (intro mult_right_mono) simp_all
  then show ?thesis by (simp add: fl_pos [OF xp] ex_def)
qed

lemma fl_1 [simp]: "fl 1 = 1"
  using fl_eval [of 1 0] by (simp add: pow2_def)

lemma fl_40 [simp]: "fl 40 = 40"
  using fl_eval [of 40 5] by (simp add: pow2_def)

lemma fl_60 [simp]: "fl 60 = 60"
  using fl_eval [of 60 5] by (simp add: pow2_def)

lemma fl_100 [simp]: "fl 100 = 100"
  using fl_eval [of 100 6] by (simp add: pow2_def)

section \<open>Properties of the ATS Scorer\<close>

lemma sorted_sorted_list_of_fset: "sorted (sorted_list_of_fset A)"
  by (simp add: sorted_list_of_fset.rep_eq)

lemma distinct_sorted_list_of_fset: "distinct (sorted_list_of_fset A)"
  by (simp add: sorted_list_of_fset.rep_eq)

lemma length_sorted_list_of_fset: "length (sorted_list_of_fset A) = fcard A"
  by (simp add: sorted_list_of_fset.rep_eq fcard.rep_eq)

lemma length_missing_of: "length (missing_of U t K) \<le> fcard K"
  unfolding missing_of_def length_sorted_list_of_fset by (rule fcard_mono) auto

lemma set_missing_of: "set (missing_of U t K) = {k. k |\<in>| K \<and> k \<notin> set (simple_tokenize U t)}"
  by (auto simp: missing_of_def)

lemma float_of_int_numeral_60 [simp]: "float_of_int 60 = 60"
  by (simp add: float_of_int_def)

lemma float_of_int_numeral_40 [simp]: "float_of_int 40 = 40"
  by (simp add: float_of_int_def)

lemma coverage_of_eq:
  "coverage_of U t K = Inr (coverage_value (int (length (missing_of U t K))) (int (fcard K)))"
  by (simp add: coverage_of_def int_truediv_def float_sub_def coverage_value_def)

lemma coverage_value_bounds:
  assumes "0 \<le> m" "m \<le> max 1 n"
  shows "0 \<le> coverage_value m n \<and> coverage_value m n \<le> 1"
proof -
  define q :: rat where "q = fl (of_int m / of_int (max 1 n))"
  have pos: "(0::rat) < of_int (max 1 n)" by simp
  have "0 \<le> (of_int m / of_int (max 1 n) :: rat)" using assms(1) by simp
  moreover have "(of_int m / of_int (max 1 n) :: rat) \<le> 1"
    using assms(2) pos by (simp add: divide_le_eq_1)
  ultimately have q: "0 \<le> q" "q \<le> 1"
    unfolding q_def by (simp_all add: fl_nonneg fl_le)
  then have "0 \<le> fl (1 - q)" "fl (1 - q) \<le> 1"
    by (simp_all add: fl_nonneg fl_le)
  then show ?thesis by (simp add: coverage_value_def q_def)
qed

lemma ats_value_bounds:
  assumes "0 \<le> coverage" "coverage \<le> 1" "0 \<le> n"
  shows "0 \<le> ats_value coverage n \<and> ats_value coverage n \<le> 100"
proof -
  define a where "a = fl (60 * coverage)"
  define b where "b = fl (40 * min 1 (fl (float_of_int n / 6)))"
  have a: "0 \<le> a" "a \<le> 60"
    unfolding a_def using assms(1,2) by (simp_all add: fl_nonneg fl_le)
  have "0 \<le> float_of_int n" using assms(3) by (simp add: float_of_int_def fl_nonneg)
  then have "0 \<le> fl (float_of_int n / 6)" by (simp add: fl_nonneg)
  then have "0 \<le> 40 * min 1 (fl (float_of_int n / 6))" "40 * min 1 (fl (float_of_int n / 6)) \<le> 40"
    by simp_all
  then have b: "0 \<le> b" "b \<le> 40"
    unfolding b_def by (simp_all add: fl_nonneg fl_le)
  from a b have "0 \<le> fl (a + b)" "fl (a + b) \<le> 100"
    by (simp_all add: fl_nonneg fl_le)
  then show ?thesis by (simp add: ats_value_def a_def b_def)
qed

lemma compute_ats_score_eq:
  assumes "detect_sections U t = Inr secs"
  shows "compute_ats_score U t K =
           Inr \<lparr> score = \<lfloor>ats_value (coverage_value (int (length (missing_of U t K))) (int (fcard K)))
                                     (int (length secs))\<rfloor>,
                 missing_keywords = take 100 (missing_of U t K),
                 detected_sections = secs \<rparr>"
proof -
  define cov where "cov = coverage_value (int (length (missing_of U t K))) (int (fcard K))"
  define v where "v = ats_value cov (int (length secs))"
  have "int (length (missing_of U t K)) \<le> max 1 (int (fcard K))"
    using length_missing_of [of U t K] by simp
  then have cov: "0 \<le> cov" "cov \<le> 1"
    unfolding cov_def using coverage_value_bounds [of "int (length (missing_of U t K))" "int (fcard K)"]
    by simp_all
  then have v: "0 \<le> v" "v \<le> 100"
    unfolding v_def using ats_value_bounds [of cov "int (length secs)"] by simp_all
  then have "0 \<le> \<lfloor>v\<rfloor>" "\<lfloor>v\<rfloor> \<le> 100" by (simp_all add: floor_le_iff)
  then have clamp: "max 0 (min 100 (py_int v)) = \<lfloor>v\<rfloor>"
    using v(1) by (simp add: py_int_def)
  have "compute_ats_score U t K =
          Inr \<lparr> score = max 0 (min 100 (py_int v)),
                missing_keywords = take 100 (missing_of U t K), detected_sections = secs \<rparr>"
    by (simp add: compute_ats_score_def coverage_of_eq assms float_truediv_def float_add_def
        float_mul_def v_def ats_value_def cov_def)
  with clamp show ?thesis by (simp add: v_def cov_def)
qed

lemma detect_sections_total: "\<exists>m. detect_sections U t = Inr m"
proof -
  obtain p where p: "heading_pass U t = Inr p"
    using heading_pass_result [of U t] by (elim exE conjE)
  obtain q where q: "keyword_pass U t = Inr q"
    using keyword_pass_result [of U t] by (elim exE conjE)
  show ?thesis using detect_sections_eq [OF p] q by simp
qed

lemma missing_of_empty [simp]: "missing_of U t {||} = []"
  by (simp add: missing_of_def sorted_list_of_fset.rep_eq)

lemma round_half_even_divide:
  assumes "0 < b"
  shows "round_half_even (of_int a / of_int b) =
           (if 2 * (a mod b) < b then a div b
            else if b < 2 * (a mod b) then a div b + 1
            else if even (a div b) then a div b else a div b + 1)"
proof -
  have fl: "\<lfloor>of_int a / of_int b :: rat\<rfloor> = a div b"
    by (simp add: floor_divide_of_int_eq)
  have "(of_int a :: rat) = of_int (a div b) * of_int b + of_int (a mod b)"
    by (metis of_int_add of_int_mult div_mult_mod_eq)
  then have fr: "(of_int a / of_int b :: rat) - of_int (a div b) = of_int (a mod b) / of_int b"
    using assms by (simp add: field_simps)
  have lt: "(of_int (a mod b) / of_int b < (1 / 2 :: rat)) = (2 * (a mod b) < b)"
    using assms by (simp add: field_simps) (metis of_int_less_iff of_int_mult of_int_numeral mult.commute)
  have gt: "((1 / 2 :: rat) < of_int (a mod b) / of_int b) = (b < 2 * (a mod b))"
    using assms by (simp add: field_simps) (metis of_int_less_iff of_int_mult of_int_numeral mult.commute)
  show ?thesis
    unfolding round_half_even_def fl fr lt gt by simp
qed

lemma round_half_even_fraction:
  "round_half_even (numeral m / numeral n) =
     (if 2 * (numeral m mod numeral n) < (numeral n :: int) then numeral m div numeral n
      else if (numeral n :: int) < 2 * (numeral m mod numeral n) then numeral m div numeral n + 1
      else if even (numeral m div numeral n :: int) then numeral m div numeral n
      else numeral m div numeral n + 1)"
  using round_half_even_divide [of "numeral n" "numeral m"] by simp

lemma floor_fraction: "\<lfloor>numeral m / numeral n :: rat\<rfloor> = numeral m div numeral n"
  using floor_divide_of_int_eq [of "numeral m" "numeral n", where ?'a = rat] by simp

lemma fl_one_sixth: "fl (1 / 6) = 6004799503160661 / 36028797018963968"
  using fl_eval [of "1 / 6" "- 3"] by (simp add: pow2_def round_half_even_fraction)

lemma fl_forty_sixths:
  "fl (30023997515803305 / 4503599627370496) = 3752999689475413 / 562949953421312"
  using fl_eval [of "30023997515803305 / 4503599627370496" 2]
  by (simp add: pow2_def round_half_even_fraction)

lemma fl_sixty_six:
  "fl (37529996894754133 / 562949953421312) = 4691249611844267 / 70368744177664"
  using fl_eval [of "37529996894754133 / 562949953421312" 6]
  by (simp add: pow2_def round_half_even_fraction)

lemma ats_value_one_section: "ats_value 1 1 = 4691249611844267 / 70368744177664"
  by (simp add: ats_value_def float_of_int_def fl_one_sixth fl_forty_sixths fl_sixty_six)

lemma compute_ats_score_three_lines:
  "compute_ats_score U three_lines {||} =
     Inr \<lparr> score = 66, missing_keywords = [], detected_sections = [(S ''summary'', 3)] \<rparr>"
  using compute_ats_score_eq [OF detect_sections_three_lines, of U "{||}"]
  by (simp add: coverage_value_def ats_value_one_section floor_fraction)

text \<open>
  C1, as the specification words it: the score is 60 times the coverage plus 40 times
  \<open>min(1, sections / 6)\<close>, rounded to the nearest integer. For a text of three short lines
  and no role keyword the coverage is 1 and one section is detected, the formula gives
  66.67 and so 67; the code gives 66, because \<open>int\<close> cuts the fraction off.
\<close>

theorem ats_score_rounding_counterexample:
  "compute_ats_score ascii_db three_lines {||} =
     Inr \<lparr> score = 66, missing_keywords = [], detected_sections = [(S ''summary'', 3)] \<rparr>
   \<and> spec_ats_score (length (missing_of ascii_db three_lines {||})) (fcard {||})
        (length [(S ''summary'', 3::int)]) = 67"
  by (simp add: compute_ats_score_three_lines spec_ats_score_def round_def floor_fraction)

text \<open>
  C1, amended: the ATS Scorer never raises. With \<open>coverage\<close> the double that
  \<open>1.0 - (len(missing) / max(1, len(role_keywords)))\<close> gives and \<open>v\<close> the double that
  \<open>60 * coverage + 40 * min(1.0, len(detected_sections) / 6.0)\<close> gives, where
  \<open>detected_sections\<close> is the output of the Section Detector on the text, \<open>v\<close> lies between 0
  and 100 and the score is \<open>v\<close> with its fraction cut off, that is the floor of \<open>v\<close>: the
  score is not rounded to the nearest integer, and the clamp to the range from 0 to 100
  changes nothing.
\<close>

theorem ats_score_formula:
  "\<exists>secs. detect_sections U t = Inr secs
     \<and> coverage_of U t K = Inr (coverage_value (int (length (missing_of U t K))) (int (fcard K)))
     \<and> 0 \<le> ats_value (coverage_value (int (length (missing_of U t K))) (int (fcard K)))
                      (int (length secs))
     \<and> ats_value (coverage_value (int (length (missing_of U t K))) (int (fcard K)))
                  (int (length secs)) \<le> 100
     \<and> compute_ats_score U t K =
           Inr \<lparr> score = \<lfloor>ats_value (coverage_value (int (length (missing_of U t K))) (int (fcard K)))
                                     (int (length secs))\<rfloor>,
                 missing_keywords = take 100 (missing_of U t K),
                 detected_sections = secs \<rparr>"
proof -
  obtain secs where secs: "detect_sections U t = Inr secs"
    using detect_sections_total [of U t] by (elim exE)
  have "int (length (missing_of U t K)) \<le> max 1 (int (fcard K))"
    using length_missing_of [of U t K] by simp
  then have "0 \<le> coverage_value (int (length (missing_of U t K))) (int (fcard K))
      \<and> coverage_value (int (length (missing_of U t K))) (int (fcard K)) \<le> 1"
    by (intro coverage_value_bounds) simp_all
  then have "0 \<le> ats_value (coverage_value (int (length (missing_of U t K))) (int (fcard K)))
                      (int (length secs))
      \<and> ats_value (coverage_value (int (length (missing_of U t K))) (int (fcard K)))
                  (int (length secs)) \<le> 100"
    by (intro ats_value_bounds) simp_all
  with secs compute_ats_score_eq [OF secs, of K] coverage_of_eq [of U t K]
  show ?thesis by blast
qed

theorem ats_score_formula_witness:
  "detect_sections ascii_db three_lines = Inr [(S ''summary'', 3)]
   \<and> ats_value (coverage_value (int (length (missing_of ascii_db three_lines {||}))) (int (fcard {||})))
        (int (length [(S ''summary'', 3::int)])) = 4691249611844267 / 70368744177664
   \<and> compute_ats_score ascii_db three_lines {||} =
       Inr \<lparr> score = 66, missing_keywords = [], detected_sections = [(S ''summary'', 3)] \<rparr>"
  using ats_score_formula [of ascii_db three_lines "{||}"]
  by (simp add: detect_sections_three_lines coverage_value_def ats_value_one_section
      floor_fraction)

text \<open>
  C7: for every text and every set of role keywords, the empty text and the empty set
  included, the ATS Scorer returns a result, and its score is an integer from 0 to 100.
  With no role keyword the coverage is 1.0, the divisor being \<open>max(1, len(role_keywords))\<close>.
\<close>

theorem ats_score_in_range:
  "(\<exists>r. compute_ats_score U t K = Inr r \<and> 0 \<le> score r \<and> score r \<le> 100)
   \<and> coverage_of U t {||} = Inr 1"
proof -
  obtain secs where secs: "detect_sections U t = Inr secs"
    using detect_sections_total [of U t] by (elim exE)
  have "\<exists>r. compute_ats_score U t K = Inr r \<and> 0 \<le> score r \<and> score r \<le> 100"
    by (simp add: compute_ats_score_def coverage_of_eq secs float_truediv_def)
  moreover have "coverage_of U t {||} = Inr 1"
    by (simp add: coverage_of_eq coverage_value_def)
  ultimately show ?thesis by simp
qed

theorem ats_score_in_range_witness:
  "compute_ats_score ascii_db [] {||} =
     Inr \<lparr> score = 60, missing_keywords = [], detected_sections = [] \<rparr>
   \<and> (0::int) \<le> 60 \<and> (60::int) \<le> 100
   \<and> coverage_of ascii_db [] {||} = Inr 1"
  using ats_score_in_range [of ascii_db "[]" "{||}"]
  by (simp add: compute_ats_score_def coverage_of_eq coverage_value_def float_truediv_def
      float_add_def float_mul_def float_of_int_def py_int_def
      char_class_defs string_defs detector_defs)

text \<open>
  C8: for every text and every set of role keywords the list of missing keywords that the
  ATS Scorer returns has at most 100 entries, is sorted in ascending lexicographic order,
  and has no element in common with the tokens of the text; its entries are role keywords.
\<close>

theorem missing_keywords_sorted_disjoint:
  "\<exists>r. compute_ats_score U t K = Inr r
     \<and> length (missing_keywords r) \<le> 100
     \<and> sorted (missing_keywords r)
     \<and> set (missing_keywords r) \<inter> set (simple_tokenize U t) = {}
     \<and> set (missing_keywords r) \<subseteq> fset K"
proof -
  obtain secs where secs: "detect_sections U t = Inr secs"
    using detect_sections_total [of U t] by (elim exE)
  have "sorted (missing_of U t K)"
    by (simp add: missing_of_def sorted_sorted_list_of_fset)
  then have "sorted (take 100 (missing_of U t K))"
    by (rule sorted_wrt_take)
  moreover have "set (take 100 (missing_of U t K)) \<subseteq> set (missing_of U t K)"
    by (rule set_take_subset)
  then have "set (take 100 (missing_of U t K)) \<inter> set (simple_tokenize U t) = {}"
      "set (take 100 (missing_of U t K)) \<subseteq> fset K"
    by (auto simp: set_missing_of)
  ultimately show ?thesis
    by (simp add: compute_ats_score_eq [OF secs])
qed

section \<open>Properties of the Recruiter-Scan Analyzer\<close>

lemma join_eq_Nil: "[] \<notin> set xs \<Longrightarrow> (join sep xs = []) = (xs = [])"
  by (induction sep xs rule: join.induct) auto

lemma first_lines_nonempty: "[] \<notin> set (first_lines U t)"
  by (auto simp: first_lines_def)

lemma length_first_lines: "length (first_lines U t) \<le> 20"
proof -
  have "length (first_lines U t) \<le> length (take 20 (splitlines t))"
    unfolding first_lines_def length_map by (rule length_filter_le)
  then show ?thesis by simp
qed

lemma first_lines_blank_then_x: "first_lines U blank_then_x = []"
  by (simp add: first_lines_def blank_then_x_def string_defs char_class_defs)

text \<open>
  C4, as the specification words it: the analyzer selects the first 20 non-blank lines of
  the document. For a document of twenty empty lines followed by the line \<open>x\<close> that
  selection is the line \<open>x\<close>; the code looks at the first 20 lines only, finds them all
  blank, selects nothing and reports the placeholder.
\<close>

theorem recruiter_scan_counterexample:
  "spec_first_lines ascii_db blank_then_x = [[120]]
   \<and> first_lines ascii_db blank_then_x = []
   \<and> highlights (analyze_recruiter_scan ascii_db blank_then_x)
       = S ''No immediate highlights detected.''"
  by (simp add: spec_first_lines_def analyze_recruiter_scan_def first_lines_blank_then_x)
     (simp add: blank_then_x_def string_defs char_class_defs ascii_db_def)

text \<open>
  C4, amended: for every text, the Recruiter-Scan Analyzer selects the non-blank lines
  among the first 20 lines of the document, each stripped of the whitespace around it (so
  at most 20 lines, and fewer when some of the first 20 lines are blank). Its highlights
  field is the first 8 selected lines joined by a newline, or a fixed placeholder if no line
  was selected; its ignored field is the selected lines after the eighth joined by a
  newline, or a fixed placeholder if 8 or fewer lines were selected.
\<close>

theorem recruiter_scan_fields:
  "first_lines U t = map (strip U) (filter (\<lambda>l. strip U l \<noteq> []) (take 20 (splitlines t)))
   \<and> length (first_lines U t) \<le> 20
   \<and> highlights (analyze_recruiter_scan U t) =
       (if first_lines U t = [] then S ''No immediate highlights detected.''
        else join [10] (take 8 (first_lines U t)))
   \<and> ignored (analyze_recruiter_scan U t) =
       (if length (first_lines U t) \<le> 8 then S ''Short resume header; focus on punchy summary.''
        else join [10] (drop 8 (first_lines U t)))"
proof -
  have "[] \<notin> set (take 8 (first_lines U t))"
    using first_lines_nonempty [of U t] by (auto dest: in_set_takeD)
  then have "(join [10] (take 8 (first_lines U t)) = []) = (take 8 (first_lines U t) = [])"
    by (rule join_eq_Nil)
  then have "(join [10] (take 8 (first_lines U t)) = []) = (first_lines U t = [])"
    by simp
  then show ?thesis
    using length_first_lines [of U t]
    by (simp add: analyze_recruiter_scan_def first_lines_def [symmetric] not_less)
qed

theorem recruiter_scan_fields_witness:
  "first_lines ascii_db three_lines = [[97], [98], [99]]
   \<and> highlights (analyze_recruiter_scan ascii_db three_lines) = [97, 10, 98, 10, 99]
   \<and> ignored (analyze_recruiter_scan ascii_db three_lines)
       = S ''Short resume header; focus on punchy summary.''"
  using recruiter_scan_fields [of ascii_db three_lines]
  by (simp add: first_lines_def three_lines_def string_defs char_class_defs ascii_db_def)

section \<open>Properties of the Role Keyword Resolver\<close>

lemma setitem_not_Nil [simp]: "setitem d k v \<noteq> []"
  by (cases d) (auto split: if_splits)

lemma Counter_eq_Nil: "(Counter xs acc = []) = (xs = [] \<and> acc = [])"
  by (induction xs arbitrary: acc) auto

lemma most_common_eq_Nil: "0 < n \<Longrightarrow> (most_common n c = []) = (c = [])"
proof -
  assume "0 < n"
  have "(sort_key (\<lambda>kv. - snd kv) c = []) = (c = [])"
    using length_sort [of "\<lambda>kv. - snd kv" c] by (metis length_0_conv)
  with \<open>0 < n\<close> show ?thesis by (simp add: most_common_def)
qed

lemma fset_of_list_eq_empty: "(fset_of_list xs = {||}) = (xs = [])"
  by (cases xs) auto

lemma keywords_of_tokens_empty:
  "0 < n \<Longrightarrow> (fset_of_list (map fst (most_common n (Counter ts []))) = {||}) = (ts = [])"
  by (simp add: fset_of_list_eq_empty most_common_eq_Nil Counter_eq_Nil)

lemma presets_nonempty: "\<forall>kv\<in>set ROLE_PRESETS. snd kv \<noteq> {||}"
  by (simp add: ROLE_PRESETS_def)

lemma find_preset_nonempty: "find P ROLE_PRESETS = Some kv \<Longrightarrow> snd kv \<noteq> {||}"
  using presets_nonempty by (auto simp: find_Some_iff)

text \<open>
  C6, as the specification words it: the keyword set is empty only when the role label and
  both texts are empty. With an empty role label and an empty job description, the resume
  \<open>42\<close> has no token and the keyword set is empty; and with the job description \<open>ab\<close>,
  whose only token is shorter than 3, the keyword set is empty whatever the resume is.
\<close>

theorem role_keywords_counterexample:
  "role_keywords_for ascii_db (Some []) (Some []) [52, 50] = {||}
   \<and> role_keywords_for ascii_db (Some []) (Some [97, 98]) (S ''python developer'') = {||}"
  by (simp add: role_keywords_for_def or_empty_def ROLE_PRESETS_def most_common_def
      string_defs char_class_defs)

text \<open>
  C6, amended: the Role Keyword Resolver always returns a keyword set (it has no operation
  that can raise). The set is empty if and only if no preset key is contained in the
  lowercased role label and, when a non-empty job description is given, the job
  description has no token of 3 or more characters, or, when no job description or an empty
  one is given, the resume text has no token. In particular the set is empty when all three
  inputs are empty strings.
\<close>

theorem role_keywords_empty_iff:
  "(role_keywords_for U job_role job_desc resume_text = {||}) =
     (find (\<lambda>kv. contains (lower U (or_empty job_role)) (fst kv)) ROLE_PRESETS = None
      \<and> (if or_empty job_desc \<noteq> []
         then filter (\<lambda>t. 3 \<le> length t) (simple_tokenize U (or_empty job_desc)) = []
         else simple_tokenize U resume_text = []))"
proof (cases "find (\<lambda>kv. contains (lower U (or_empty job_role)) (fst kv)) ROLE_PRESETS")
  case None
  then show ?thesis
    by (simp add: role_keywords_for_def fset_of_list_eq_empty most_common_eq_Nil Counter_eq_Nil)
next
  case (Some kv)
  then have "snd kv \<noteq> {||}" by (rule find_preset_nonempty)
  with Some show ?thesis by (simp add: role_keywords_for_def)
qed

theorem role_keywords_empty_iff_witness:
  "role_keywords_for ascii_db (Some []) (Some []) [] = {||}
   \<and> find (\<lambda>kv. contains (lower ascii_db (or_empty (Some []))) (fst kv)) ROLE_PRESETS = None
   \<and> simple_tokenize ascii_db [] = []"
  using role_keywords_empty_iff [of ascii_db "Some []" "Some []" "[]"]
  by (simp add: or_empty_def ROLE_PRESETS_def string_defs)

section \<open>Properties of the Achievement Flagger\<close>

























lemmas flagger_defs =
  suggest_quantified_achievements_def bullet_like_def match_bullet_def match_glyph_def
  is_bullet_glyph_def is_vague_def vague_patterns_def make_item_def




section \<open>The example of the specification\<close>

lemma role_keywords_software_engineer:
  "role_keywords_for U (Some (S ''Software Engineer'')) job_desc resume_text =
     fset_of_list [S ''java'', S ''python'', S ''javascript'', S ''react'', S ''node'', S ''api'',
       S ''rest'', S ''graphql'', S ''docker'', S ''kubernetes'', S ''git'', S ''ci/cd'',
       S ''unit testing'', S ''microservices'', S ''sql'', S ''nosql'', S ''design patterns'',
       S ''testing'']"
proof -
  have l: "lower U (S ''Software Engineer'') = S ''software engineer''"
    by (simp add: string_defs char_class_defs)
  have "\<not> contains (S ''software engineer'') (S ''data scientist'')"
       "\<not> contains (S ''software engineer'') (S ''data analyst'')"
       "contains (S ''software engineer'') (S ''software engineer'')"
    by (simp_all add: S_def)
  then show ?thesis
    by (simp add: role_keywords_for_def or_empty_def l ROLE_PRESETS_def)
qed

lemma detect_sections_spec_example: "detect_sections U spec_example = Inr [(S ''summary'', 5)]"
proof -
  have "heading_pass U spec_example = Inr [(S ''summary'', 5)]"
    by (simp add: spec_example_def char_class_defs string_defs detector_defs)
  from detect_sections_eq [OF this] show ?thesis by simp
qed

lemma suggest_spec_example:
  "suggest_quantified_achievements U spec_example =
     [\<lparr> original = S ''responsible for managing a team of five people'',
        suggestion = rewrite_hint \<rparr>]"
  by (simp add: spec_example_def flagger_defs string_defs char_class_defs)

text \<open>
  C3: what the code gives for the example of the specification. The Role Keyword Resolver
  returns the preset of the software engineer and the Achievement Flagger emits one
  suggestion, whose original is the text of the bullet, as the specification says. The
  Section Detector returns the section \<open>summary\<close> alone, with the weight of all five lines:
  the lines \<open>Summary\<close> and \<open>Experience\<close> match no key of the alias table, which has no
  entry for these two section names, so no heading is found and the section \<open>experience\<close>
  is not in the output.
\<close>

theorem spec_example_outputs:
  "role_keywords_for ascii_db (Some (S ''Software Engineer'')) None spec_example =
     fset_of_list [S ''java'', S ''python'', S ''javascript'', S ''react'', S ''node'', S ''api'',
       S ''rest'', S ''graphql'', S ''docker'', S ''kubernetes'', S ''git'', S ''ci/cd'',
       S ''unit testing'', S ''microservices'', S ''sql'', S ''nosql'', S ''design patterns'',
       S ''testing'']
   \<and> getitem ROLE_PRESETS (S ''software engineer'') =
       Inr (role_keywords_for ascii_db (Some (S ''Software Engineer'')) None spec_example)
   \<and> detect_sections ascii_db spec_example = Inr [(S ''summary'', 5)]
   \<and> getitem SECTION_ALIASES (S ''summary'') = Inl KeyError
   \<and> getitem SECTION_ALIASES (S ''experience'') = Inl KeyError
   \<and> suggest_quantified_achievements ascii_db spec_example =
       [\<lparr> original = S ''responsible for managing a team of five people'',
          suggestion = rewrite_hint \<rparr>]"
proof -
  have "getitem ROLE_PRESETS (S ''software engineer'') =
       Inr (role_keywords_for ascii_db (Some (S ''Software Engineer'')) None spec_example)"
    unfolding role_keywords_software_engineer by (simp add: ROLE_PRESETS_def S_def)
  moreover have "getitem SECTION_ALIASES (S ''summary'') = Inl KeyError"
      "getitem SECTION_ALIASES (S ''experience'') = Inl KeyError"
    by (simp_all add: SECTION_ALIASES_def S_def)
  ultimately show ?thesis
    by (simp add: role_keywords_software_engineer detect_sections_spec_example
        suggest_spec_example)
qed

section \<open>Totality\<close>

lemma append_item_total:
  assumes "name \<in> fst ` set cats"
  shows "\<exists>cats'. append_item cats name k = Inr cats' \<and> fst ` set cats' = fst ` set cats"
proof -
  from getitem_member [OF assms] obtain l where "getitem cats name = Inr l"
    by (elim exE conjE)
  with assms show ?thesis
    by (simp add: append_item_def keys_setitem insert_absorb)
qed

lemma categorize_loop_total:
  assumes "S ''Soft skills'' \<in> fst ` set cats" "S ''Tools/Tech'' \<in> fst ` set cats"
      "S ''Domain'' \<in> fst ` set cats" "S ''Other'' \<in> fst ` set cats"
  shows "\<exists>r. categorize_loop domain cats ks = Inr r"
  using assms
proof (induction ks arbitrary: cats)
  case Nil
  then show ?case by simp
next
  case (Cons k ks)
  define name where "name =
    (if k \<in> set soft then S ''Soft skills'' else if k \<in> set tools then S ''Tools/Tech''
     else if k |\<in>| domain then S ''Domain'' else S ''Other'')"
  have step: "(if k \<in> set soft then append_item cats (S ''Soft skills'') k
            else if k \<in> set tools then append_item cats (S ''Tools/Tech'') k
            else if k |\<in>| domain then append_item cats (S ''Domain'') k
            else append_item cats (S ''Other'') k) = append_item cats name k"
    by (simp add: name_def)
  have "name \<in> fst ` set cats" using Cons.prems by (simp add: name_def)
  from append_item_total [OF this, of k] obtain cats' where
    cats': "append_item cats name k = Inr cats'" "fst ` set cats' = fst ` set cats"
    by (elim exE conjE)
  from Cons.prems cats'(2) have "\<exists>r. categorize_loop domain cats' ks = Inr r"
    by (intro Cons.IH) simp_all
  then show ?case
    by (simp only: categorize_loop.simps step cats'(1) sum.case)
qed

lemma categorize_keywords_total: "\<exists>r. categorize_keywords U job_role K = Inr r"
  unfolding categorize_keywords_def by (rule categorize_loop_total) simp_all

lemma round_half_even_zero [simp]: "round_half_even 0 = 0"
  by (simp add: round_half_even_def)

lemma sentences_of_pos: "1 \<le> sentences_of t"
  by (simp add: sentences_of_def)

lemma analyze_visual_insights_total: "\<exists>r. analyze_visual_insights U t K = Inr r"
proof -
  obtain secs where secs: "detect_sections U t = Inr secs"
    using detect_sections_total [of U t] by (elim exE)
  have "sentences_of t \<noteq> 0" using sentences_of_pos [of t] by simp
  then show ?thesis
    by (simp add: analyze_visual_insights_def secs int_truediv_def float_truediv_def)
qed

lemma compute_ats_score_total: "\<exists>r. compute_ats_score U t K = Inr r"
proof -
  obtain secs where secs: "detect_sections U t = Inr secs"
    using detect_sections_total [of U t] by (elim exE)
  show ?thesis by (simp add: compute_ats_score_eq [OF secs])
qed

text \<open>
  C9: the core analysis functions return a result for every input and never raise. In the
  model every operation of the code that can raise (each division and each read of a
  dictionary by key) has the exception as a possible result, and a function that contains
  such an operation returns either an exception or a value. \<open>detect_sections\<close>,
  \<open>compute_ats_score\<close>, \<open>analyze_visual_insights\<close> and \<open>categorize_keywords\<close> are such
  functions, and they return a value for every text, every keyword set and every role
  label (absent, empty or not): no divisor is 0 and every key that is read is present.
  \<open>simple_tokenize\<close>, \<open>role_keywords_for\<close>, \<open>analyze_recruiter_scan\<close> and
  \<open>suggest_quantified_achievements\<close> contain no operation that can raise, and as functions
  defined by terminating recursion they have a value for every input; for the empty text
  these values are given.
\<close>

theorem core_functions_total:
  "(\<exists>r. detect_sections U t = Inr r)
   \<and> (\<exists>r. compute_ats_score U t K = Inr r)
   \<and> (\<exists>r. analyze_visual_insights U t K = Inr r)
   \<and> (\<exists>r. categorize_keywords U job_role K = Inr r)
   \<and> simple_tokenize U [] = []
   \<and> role_keywords_for U None None [] = {||}
   \<and> analyze_recruiter_scan U [] =
       \<lparr> highlights = S ''No immediate highlights detected.'',
         ignored = S ''Short resume header; focus on punchy summary.'' \<rparr>
   \<and> suggest_quantified_achievements U [] = []"
proof -
  have "role_keywords_for U None None [] = {||}"
    by (simp add: role_keywords_for_def or_empty_def ROLE_PRESETS_def string_defs most_common_def)
  moreover have "analyze_recruiter_scan U [] =
       \<lparr> highlights = S ''No immediate highlights detected.'',
         ignored = S ''Short resume header; focus on punchy summary.'' \<rparr>"
    by (simp add: analyze_recruiter_scan_def first_lines_def string_defs)
  moreover have "suggest_quantified_achievements U [] = []"
    by (simp add: flagger_defs)
  moreover have "simple_tokenize U [] = []"
    by (simp add: string_defs)
  ultimately show ?thesis
    using detect_sections_total [of U t] compute_ats_score_total [of U t K]
      analyze_visual_insights_total [of U t K] categorize_keywords_total [of U job_role K]
    by simp
qed

theorem core_functions_total_witness:
  "detect_sections ascii_db [] = Inr []
   \<and> compute_ats_score ascii_db [] {||} =
       Inr \<lparr> score = 60, missing_keywords = [], detected_sections = [] \<rparr>
   \<and> analyze_visual_insights ascii_db [] {||} =
       Inr \<lparr> keyword_density = [], section_balance = [],
             readability = \<lparr> avg_sentence_length = 0, word_count = 0,
                              estimated_read_time_min = 0 \<rparr> \<rparr>
   \<and> categorize_keywords ascii_db None {||} =
       Inr [(S ''Soft skills'', []), (S ''Tools/Tech'', []), (S ''Domain'', []), (S ''Other'', [])]"
proof -
  have d: "detect_sections ascii_db [] = Inr []"
    by (simp add: char_class_defs string_defs detector_defs)
  have "categorize_keywords ascii_db None {||} =
       Inr [(S ''Soft skills'', []), (S ''Tools/Tech'', []), (S ''Domain'', []), (S ''Other'', [])]"
    by (simp add: categorize_keywords_def sorted_list_of_fset.rep_eq)
  moreover have "analyze_visual_insights ascii_db [] {||} =
       Inr \<lparr> keyword_density = [], section_balance = [],
             readability = \<lparr> avg_sentence_length = 0, word_count = 0,
                              estimated_read_time_min = 0 \<rparr> \<rparr>"
    by (simp add: analyze_visual_insights_def d int_truediv_def float_truediv_def
        float_of_int_def sentences_of_def py_round2_def string_defs
        sorted_list_of_fset.rep_eq)
  moreover have "compute_ats_score ascii_db [] {||} =
       Inr \<lparr> score = 60, missing_keywords = [], detected_sections = [] \<rparr>"
    using compute_ats_score_eq [OF d, of "{||}"]
    by (simp add: coverage_value_def ats_value_def float_of_int_def)
  ultimately show ?thesis
    using core_functions_total [of ascii_db "[]" "{||}" None] d by simp
qed

end
